theory Spec2Isabelle
  imports Main "HOL-Library.AList"
begin

section \<open>Data model\<close>

text \<open>
  The checkpoint subsystem of \<^verbatim>\<open>src/core/checkpoint_manager.py\<close>, embedded as pure
  functions over an explicit manager state. A Python \<^verbatim>\<open>str\<close> is a \<open>string\<close> whose
  elements stand for the characters of the Python string, so \<open>take 200\<close> is the slice
  \<^verbatim>\<open>text[:200]\<close>.
\<close>

text \<open>The value of \<^verbatim>\<open>json.loads\<close>: a Python object built from JSON text.\<close>

datatype json =
    JNull
  | JBool bool
  | JNum int
  | JStr string
  | JArr "json list"
  | JObj "(string \<times> json) list"

text \<open>The exceptions that the modelled code can raise or catch.\<close>

datatype error =
    RecursionError
  | AttributeError
  | TypeError
  | ValueError
  | JSONDecodeError
  | IOError
  | SameFileError
  | NotADirectoryError

text \<open>
  A \<^verbatim>\<open>pathlib.Path\<close> is its tuple of parts; an absolute path starts with the part
  \<open>''/''\<close>.
\<close>

type_synonym path = "string list"

text \<open>\<^verbatim>\<open>models.Checkpoint\<close>; the timestamp is the reading of the clock at creation.\<close>

record checkpoint =
  checkpoint_id :: string
  session_id :: string
  name :: string
  description :: string
  timestamp :: nat
  message_uuid :: string
  parent_checkpoint_id :: "string option"
  branch_name :: "string option"

text \<open>
  The library functions that the module calls and that are not part of the repository:
  \<^verbatim>\<open>json.loads\<close> on one line (\<open>None\<close> is \<^verbatim>\<open>JSONDecodeError\<close>), \<^verbatim>\<open>json.dumps\<close>,
  reading the index file (\<^verbatim>\<open>json.load\<close> followed by \<^verbatim>\<open>Checkpoint.from_dict\<close> on each
  element, \<open>Inl\<close> the exception raised), writing it (\<^verbatim>\<open>json.dump\<close> of the
  \<^verbatim>\<open>to_dict\<close> values), the rendering of a non-string value inside an f-string, and
  \<^verbatim>\<open>difflib.unified_diff\<close> with its two labels.
\<close>

record pylib =
  loads :: "string \<Rightarrow> json option"
  dumps :: "json \<Rightarrow> string"
  load_index :: "string list \<Rightarrow> error + checkpoint list"
  dump_index :: "checkpoint list \<Rightarrow> string list"
  format_value :: "json \<Rightarrow> string"
  unified_diff :: "string list \<Rightarrow> string list \<Rightarrow> string \<Rightarrow> string \<Rightarrow> string list"

text \<open>
  The state of a \<^verbatim>\<open>CheckpointManager\<close> together with the file system it works on:
  \<open>checkpoints_dir\<close> is \<^verbatim>\<open>self.checkpoints_dir\<close>, \<open>cache\<close> is \<^verbatim>\<open>self._checkpoints\<close>,
  and \<open>files\<close> maps the path of every regular file to its lines (each without its line
  terminator). Directories are implicit: one exists when a file lies below it, so
  \<^verbatim>\<open>mkdir(parents=True, exist_ok=True)\<close> changes nothing in this picture.
\<close>

record manager =
  checkpoints_dir :: path
  cache :: "checkpoint list option"
  files :: "path \<Rightarrow> string list option"

section \<open>Strings and paths\<close>

text \<open>The characters that \<^verbatim>\<open>str.strip()\<close> removes, among the first 256 code points.\<close>

definition isspace :: "char \<Rightarrow> bool" where
  "isspace c =
     (let n = (of_char c :: nat)
      in (9 \<le> n \<and> n \<le> 13) \<or> (28 \<le> n \<and> n \<le> 32) \<or> n = 133 \<or> n = 160)"

definition strip :: "string \<Rightarrow> string" where
  "strip s = rev (dropWhile isspace (rev (dropWhile isspace s)))"

fun split_slash :: "string \<Rightarrow> string list" where
  "split_slash [] = [[]]"
| "split_slash (c # cs) =
     (if c = CHR ''/'' then [] # split_slash cs
      else (case split_slash cs of
              [] \<Rightarrow> [[c]]
            | w # ws \<Rightarrow> (c # w) # ws))"

text \<open>The relative parts of a path string: empty parts and \<open>''.''\<close> are dropped.\<close>

definition parse_parts :: "string \<Rightarrow> path" where
  "parse_parts s = filter (\<lambda>w. w \<noteq> [] \<and> w \<noteq> ''.'') (split_slash s)"

definition is_absolute :: "string \<Rightarrow> bool" where
  "is_absolute s = (case s of [] \<Rightarrow> False | c # _ \<Rightarrow> c = CHR ''/'')"

text \<open>
  \<^verbatim>\<open>Path(s)\<close> on a POSIX system, for strings that do not start with exactly two
  slashes (\<^verbatim>\<open>pathlib\<close> keeps such a prefix as a root of its own).
\<close>

definition Path :: "string \<Rightarrow> path" where
  "Path s = (if is_absolute s then ''/'' # parse_parts s else parse_parts s)"

text \<open>\<^verbatim>\<open>p / s\<close>: an absolute right operand replaces the left one.\<close>

definition join :: "path \<Rightarrow> string \<Rightarrow> path" where
  "join p s = (if is_absolute s then Path s else p @ parse_parts s)"

fun intercalate_slash :: "string list \<Rightarrow> string" where
  "intercalate_slash [] = []"
| "intercalate_slash [w] = w"
| "intercalate_slash (w # ws) = w @ ''/'' @ intercalate_slash ws"

text \<open>\<^verbatim>\<open>str(p)\<close>.\<close>

definition str_path :: "path \<Rightarrow> string" where
  "str_path p =
     (case p of
        [] \<Rightarrow> ''.''
      | w # ws \<Rightarrow> (if w = ''/'' then ''/'' @ intercalate_slash ws else intercalate_slash p))"

text \<open>\<^verbatim>\<open>p.name\<close>: the last part, empty for the root and for the empty path.\<close>

definition path_name :: "path \<Rightarrow> string" where
  "path_name p = (if p = [] \<or> p = [''/''] then [] else last p)"

text \<open>
  \<^verbatim>\<open>PurePath.suffix\<close> of a name: from the last dot, unless that dot is the first or
  the last character of the name.
\<close>

fun last_dot :: "string \<Rightarrow> nat option" where
  "last_dot [] = None"
| "last_dot (c # cs) =
     (case last_dot cs of
        Some i \<Rightarrow> Some (Suc i)
      | None \<Rightarrow> (if c = CHR ''.'' then Some 0 else None))"

definition name_suffix :: "string \<Rightarrow> string" where
  "name_suffix n =
     (case last_dot n of
        None \<Rightarrow> []
      | Some i \<Rightarrow> (if 0 < i \<and> i < length n - 1 then drop i n else []))"

text \<open>
  \<^verbatim>\<open>p.with_suffix(suffix)\<close> for a well-formed \<open>suffix\<close>: \<^verbatim>\<open>ValueError\<close> when the
  path has an empty name, otherwise the old suffix of the name is replaced.
\<close>

definition with_suffix :: "path \<Rightarrow> string \<Rightarrow> error + path" where
  "with_suffix p suffix =
     (let n = path_name p
      in if n = [] then Inl ValueError
         else Inr (butlast p @ [take (length n - length (name_suffix n)) n @ suffix]))"

section \<open>File system\<close>

text \<open>The root and the empty path are directories; every other path may hold a file.\<close>

definition file_at :: "manager \<Rightarrow> path \<Rightarrow> string list option" where
  "file_at s p = (if path_name p = [] then None else files s p)"

text \<open>
  \<^verbatim>\<open>p.exists()\<close>. The paths that the module tests are taken to name a regular
  file, the root, the current directory or nothing; a directory that exists only because
  files lie below it is not among them.
\<close>

definition exists :: "manager \<Rightarrow> path \<Rightarrow> bool" where
  "exists s p = (path_name p = [] \<or> files s p \<noteq> None)"

definition write_file :: "path \<Rightarrow> string list \<Rightarrow> manager \<Rightarrow> manager" where
  "write_file p ls s = s\<lparr>files := (files s)(p \<mapsto> ls)\<rparr>"

definition below :: "path \<Rightarrow> path \<Rightarrow> bool" where
  "below d q = (length d \<le> length q \<and> take (length d) q = d)"

text \<open>
  \<^verbatim>\<open>shutil.rmtree(d)\<close>: every file below \<open>d\<close> goes; a regular file at \<open>d\<close> itself is
  \<^verbatim>\<open>NotADirectoryError\<close>.
\<close>

definition rmtree :: "path \<Rightarrow> manager \<Rightarrow> error + manager" where
  "rmtree d s =
     (if file_at s d \<noteq> None then Inl NotADirectoryError
      else Inr (s\<lparr>files := (\<lambda>q. if below d q then None else files s q)\<rparr>))"

text \<open>
  \<^verbatim>\<open>shutil.copy2(src, dst)\<close>: a destination that is a directory (here the root or
  the empty path) stands for the file of the source's name inside it;
  \<^verbatim>\<open>SameFileError\<close> when source and destination are the same file, \<^verbatim>\<open>IOError\<close>
  when \<open>src\<close> is not a regular file.
\<close>

definition copy2 :: "path \<Rightarrow> path \<Rightarrow> manager \<Rightarrow> error + manager" where
  "copy2 src dst s =
     (case file_at s src of
        None \<Rightarrow> Inl IOError
      | Some ls \<Rightarrow>
          (let target = (if path_name dst = [] then dst @ [path_name src] else dst)
           in if src = target then Inl SameFileError else Inr (write_file target ls s)))"

section \<open>The checkpoint store\<close>

definition checkpoints_file :: "manager \<Rightarrow> path" where
  "checkpoints_file s = join (checkpoints_dir s) ''index.json''"

text \<open>
  \<^verbatim>\<open>_ensure_dir_exists\<close> and \<^verbatim>\<open>_save_checkpoints\<close> call each other. The first
  argument after the library is the number of stack frames that the interpreter still
  allows; when none is left the call raises \<^verbatim>\<open>RecursionError\<close>.
\<close>

fun ensure_dir_exists :: "pylib \<Rightarrow> nat \<Rightarrow> manager \<Rightarrow> (error + unit) \<times> manager"
  and save_checkpoints ::
    "pylib \<Rightarrow> nat \<Rightarrow> checkpoint list \<Rightarrow> manager \<Rightarrow> (error + unit) \<times> manager"
where
  "ensure_dir_exists lib 0 s = (Inl RecursionError, s)"
| "ensure_dir_exists lib (Suc n) s =
     (if \<not> exists s (checkpoints_file s) then save_checkpoints lib n [] s
      else (Inr (), s))"
| "save_checkpoints lib 0 cps s = (Inl RecursionError, s)"
| "save_checkpoints lib (Suc n) cps s =
     (case ensure_dir_exists lib n s of
        (Inl e, s1) \<Rightarrow> (Inl e, s1)
      | (Inr _, s1) \<Rightarrow>
          (Inr (), (write_file (checkpoints_file s1) (dump_index lib cps) s1)
                     \<lparr>cache := Some cps\<rparr>))"

text \<open>
  The refreshing branch of \<^verbatim>\<open>get_checkpoints\<close>: \<^verbatim>\<open>JSONDecodeError\<close> and
  \<^verbatim>\<open>IOError\<close> are caught and leave an empty list, any other exception propagates.
\<close>

definition load_cache :: "pylib \<Rightarrow> nat \<Rightarrow> manager \<Rightarrow> (error + checkpoint list) \<times> manager" where
  "load_cache lib depth s =
     (case ensure_dir_exists lib depth s of
        (Inl e, s1) \<Rightarrow> (Inl e, s1)
      | (Inr _, s1) \<Rightarrow>
          (case file_at s1 (checkpoints_file s1) of
             None \<Rightarrow> (Inr [], s1\<lparr>cache := Some []\<rparr>)
           | Some ls \<Rightarrow>
               (case load_index lib ls of
                  Inr cps \<Rightarrow> (Inr cps, s1\<lparr>cache := Some cps\<rparr>)
                | Inl e \<Rightarrow>
                    (if e = JSONDecodeError \<or> e = IOError
                     then (Inr [], s1\<lparr>cache := Some []\<rparr>)
                     else (Inl e, s1)))))"

definition get_checkpoints ::
  "pylib \<Rightarrow> nat \<Rightarrow> string option \<Rightarrow> bool \<Rightarrow> manager \<Rightarrow> (error + checkpoint list) \<times> manager"
where
  "get_checkpoints lib depth sid force_refresh s =
     (case (case cache s of
              None \<Rightarrow> load_cache lib depth s
            | Some cps \<Rightarrow> (if force_refresh then load_cache lib depth s else (Inr cps, s))) of
        (Inl e, s1) \<Rightarrow> (Inl e, s1)
      | (Inr cps, s1) \<Rightarrow>
          (case sid of
             None \<Rightarrow> (Inr cps, s1)
           | Some i \<Rightarrow>
               (if i \<noteq> [] then (Inr (filter (\<lambda>c. session_id c = i) cps), s1)
                else (Inr cps, s1))))"

definition get_checkpoint ::
  "pylib \<Rightarrow> nat \<Rightarrow> string \<Rightarrow> manager \<Rightarrow> (error + checkpoint option) \<times> manager"
where
  "get_checkpoint lib depth cid s =
     (case get_checkpoints lib depth None False s of
        (Inl e, s1) \<Rightarrow> (Inl e, s1)
      | (Inr cps, s1) \<Rightarrow> (Inr (find (\<lambda>cp. checkpoint_id cp = cid) cps), s1))"

text \<open>\<^verbatim>\<open>checkpoints_dir / checkpoint_id / "session.jsonl"\<close>.\<close>

definition snapshot_path :: "manager \<Rightarrow> string \<Rightarrow> path" where
  "snapshot_path s cid = join (join (checkpoints_dir s) cid) ''session.jsonl''"

section \<open>Create\<close>

text \<open>\<^verbatim>\<open>d.get(k, default)\<close> on a dict.\<close>

definition dict_get :: "(string \<times> json) list \<Rightarrow> string \<Rightarrow> json \<Rightarrow> json" where
  "dict_get kv k dflt = (case map_of kv k of None \<Rightarrow> dflt | Some v \<Rightarrow> v)"

text \<open>
  The reading loop of \<^verbatim>\<open>create_checkpoint\<close>. A value that is not a dict has no
  \<^verbatim>\<open>get\<close>: \<^verbatim>\<open>AttributeError\<close>, which the loop does not catch.
\<close>

fun read_until :: "pylib \<Rightarrow> string \<Rightarrow> string list \<Rightarrow> error + json list" where
  "read_until lib u [] = Inr []"
| "read_until lib u (l # ls) =
     (let line = strip l
      in if line = [] then read_until lib u ls
         else (case loads lib line of
                 None \<Rightarrow> read_until lib u ls
               | Some d \<Rightarrow>
                   (case d of
                      JObj kv \<Rightarrow>
                        (if dict_get kv ''uuid'' JNull = JStr u then Inr [d]
                         else (case read_until lib u ls of
                                 Inl e \<Rightarrow> Inl e
                               | Inr ds \<Rightarrow> Inr (d # ds)))
                    | _ \<Rightarrow> Inl AttributeError)))"

definition create_checkpoint ::
  "pylib \<Rightarrow> nat \<Rightarrow> string \<Rightarrow> nat \<Rightarrow> string \<Rightarrow> string \<Rightarrow> string \<Rightarrow> string \<Rightarrow> string \<Rightarrow>
   string option \<Rightarrow> string option \<Rightarrow> manager \<Rightarrow> (error + checkpoint) \<times> manager"
where
  "create_checkpoint lib depth uuid4 now sid session_path muuid nm descr parent branch s =
     (let cp = \<lparr>checkpoint_id = uuid4, session_id = sid, name = nm, description = descr,
                timestamp = now, message_uuid = muuid, parent_checkpoint_id = parent,
                branch_name = branch\<rparr>;
          session_file = Path session_path
      in case (if exists s session_file then
                 (case file_at s session_file of
                    None \<Rightarrow> (Inl IOError, s)
                  | Some ls \<Rightarrow>
                      (case read_until lib muuid ls of
                         Inl e \<Rightarrow> (Inl e, s)
                       | Inr msgs \<Rightarrow>
                           (Inr (), write_file (snapshot_path s (checkpoint_id cp))
                                      (map (dumps lib) msgs) s)))
               else (Inr (), s)) of
           (Inl e, s1) \<Rightarrow> (Inl e, s1)
         | (Inr _, s1) \<Rightarrow>
             (case get_checkpoints lib depth None False s1 of
                (Inl e, s2) \<Rightarrow> (Inl e, s2)
              | (Inr cps, s2) \<Rightarrow>
                  (case save_checkpoints lib depth (cps @ [cp])
                          (s2\<lparr>cache := Some (cps @ [cp])\<rparr>) of
                     (Inl e, s3) \<Rightarrow> (Inl e, s3)
                   | (Inr _, s3) \<Rightarrow> (Inr cp, s3))))"

section \<open>Delete\<close>

definition reparent :: "string \<Rightarrow> string option \<Rightarrow> checkpoint \<Rightarrow> checkpoint" where
  "reparent cid p c =
     (if parent_checkpoint_id c = Some cid then c\<lparr>parent_checkpoint_id := p\<rparr> else c)"

text \<open>
  \<^verbatim>\<open>rmtree\<close> runs only when the data directory exists; on a directory that holds no
  file it changes nothing here, so the test of \<^verbatim>\<open>exists()\<close> is not modelled apart.
\<close>

definition delete_checkpoint ::
  "pylib \<Rightarrow> nat \<Rightarrow> string \<Rightarrow> manager \<Rightarrow> (error + bool) \<times> manager"
where
  "delete_checkpoint lib depth cid s =
     (case get_checkpoints lib depth None False s of
        (Inl e, s1) \<Rightarrow> (Inl e, s1)
      | (Inr cps, s1) \<Rightarrow>
          (case find (\<lambda>cp. checkpoint_id cp = cid) cps of
             None \<Rightarrow> (Inr False, s1)
           | Some cp \<Rightarrow>
               (case rmtree (join (checkpoints_dir s1) cid) s1 of
                  Inl e \<Rightarrow> (Inl e, s1)
                | Inr s2 \<Rightarrow>
                    (let cps1 = map (reparent cid (parent_checkpoint_id cp)) cps;
                         cps2 = filter (\<lambda>c. checkpoint_id c \<noteq> cid) cps1
                     in case save_checkpoints lib depth cps2 (s2\<lparr>cache := Some cps1\<rparr>) of
                          (Inl e, s3) \<Rightarrow> (Inl e, s3)
                        | (Inr _, s3) \<Rightarrow> (Inr True, s3)))))"

section \<open>Restore\<close>

definition backup_path :: "path \<Rightarrow> error + path" where
  "backup_path session_file = with_suffix session_file ''.jsonl.backup''"

definition restore_checkpoint ::
  "pylib \<Rightarrow> nat \<Rightarrow> string \<Rightarrow> string \<Rightarrow> manager \<Rightarrow> (error + bool) \<times> manager"
where
  "restore_checkpoint lib depth cid session_path s =
     (case get_checkpoint lib depth cid s of
        (Inl e, s1) \<Rightarrow> (Inl e, s1)
      | (Inr None, s1) \<Rightarrow> (Inr False, s1)
      | (Inr (Some cp), s1) \<Rightarrow>
          (let checkpoint_session = snapshot_path s1 cid
           in if \<not> exists s1 checkpoint_session then (Inr False, s1)
              else
                (let session_file = Path session_path
                 in case (if exists s1 session_file then
                            (case backup_path session_file of
                               Inl e \<Rightarrow> Inl e
                             | Inr b \<Rightarrow> copy2 session_file b s1)
                          else Inr s1) of
                      Inl e \<Rightarrow> (Inl e, s1)
                    | Inr s2 \<Rightarrow>
                        (case copy2 checkpoint_session session_file s2 of
                           Inl e \<Rightarrow> (Inl e, s2)
                         | Inr s3 \<Rightarrow> (Inr True, s3)))))"

section \<open>Fork\<close>

text \<open>
  The copying loop of \<^verbatim>\<open>fork_session\<close>: the lines written so far, and the exception
  that stopped the loop, if any. Item assignment on a value that is not a dict is
  \<^verbatim>\<open>TypeError\<close>.
\<close>

definition retag :: "string \<Rightarrow> (string \<times> json) list \<Rightarrow> json" where
  "retag new_sid kv = JObj (AList.update ''sessionId'' (JStr new_sid) kv)"

fun fork_lines :: "pylib \<Rightarrow> string \<Rightarrow> string list \<Rightarrow> string list \<times> error option" where
  "fork_lines lib new_sid [] = ([], None)"
| "fork_lines lib new_sid (l # ls) =
     (case loads lib (strip l) of
        None \<Rightarrow> fork_lines lib new_sid ls
      | Some d \<Rightarrow>
          (case d of
             JObj kv \<Rightarrow>
               (case fork_lines lib new_sid ls of
                  (out, e) \<Rightarrow> (dumps lib (retag new_sid kv) # out, e))
           | _ \<Rightarrow> ([], Some TypeError)))"

text \<open>
  Opening the new log for writing empties it before the first line of the snapshot is
  read, so a new log that is the snapshot itself is read as empty.
\<close>

definition fork_session ::
  "pylib \<Rightarrow> nat \<Rightarrow> string \<Rightarrow> nat \<Rightarrow> string \<Rightarrow> string \<Rightarrow> path \<Rightarrow> string \<Rightarrow> manager \<Rightarrow>
   (error + string option) \<times> manager"
where
  "fork_session lib depth uuid4 now cid new_sid project_path branch s =
     (case get_checkpoint lib depth cid s of
        (Inl e, s1) \<Rightarrow> (Inl e, s1)
      | (Inr None, s1) \<Rightarrow> (Inr None, s1)
      | (Inr (Some cp), s1) \<Rightarrow>
          (let checkpoint_session = snapshot_path s1 cid
           in if \<not> exists s1 checkpoint_session then (Inr None, s1)
              else
                (case file_at s1 checkpoint_session of
                   None \<Rightarrow> (Inl IOError, s1)
                 | Some ls \<Rightarrow>
                     (let new_session_path = join project_path (new_sid @ ''.jsonl'');
                          src = (if new_session_path = checkpoint_session then [] else ls)
                      in case fork_lines lib new_sid src of
                           (out, Some e) \<Rightarrow> (Inl e, write_file new_session_path out s1)
                         | (out, None) \<Rightarrow>
                             (case create_checkpoint lib depth uuid4 now new_sid
                                     (str_path new_session_path) (message_uuid cp)
                                     (''Fork from '' @ name cp)
                                     (''Forked from checkpoint: '' @ name cp)
                                     (Some cid) (Some branch)
                                     (write_file new_session_path out s1) of
                                (Inl e, s2) \<Rightarrow> (Inl e, s2)
                              | (Inr _, s2) \<Rightarrow> (Inr (Some (str_path new_session_path)), s2))))))"

section \<open>Diff\<close>

fun read_messages :: "pylib \<Rightarrow> string list \<Rightarrow> error + json list" where
  "read_messages lib [] = Inr []"
| "read_messages lib (l # ls) =
     (let line = strip l
      in if line = [] then read_messages lib ls
         else (case loads lib line of
                 None \<Rightarrow> read_messages lib ls
               | Some d \<Rightarrow>
                   (case d of
                      JObj kv \<Rightarrow>
                        (case read_messages lib ls of
                           Inl e \<Rightarrow> Inl e
                         | Inr ds \<Rightarrow>
                             (if dict_get kv ''type'' JNull \<in> {JStr ''user'', JStr ''assistant''}
                              then Inr (d # ds) else Inr ds))
                    | _ \<Rightarrow> Inl AttributeError)))"

definition get_checkpoint_messages :: "pylib \<Rightarrow> string \<Rightarrow> manager \<Rightarrow> error + json list" where
  "get_checkpoint_messages lib cid s =
     (if exists s (snapshot_path s cid) then
        (case file_at s (snapshot_path s cid) of
           None \<Rightarrow> Inl IOError
         | Some ls \<Rightarrow> read_messages lib ls)
      else Inr [])"

text \<open>A value inside an f-string: a string stands for itself.\<close>

definition fmt :: "pylib \<Rightarrow> json \<Rightarrow> string" where
  "fmt lib v = (case v of JStr t \<Rightarrow> t | _ \<Rightarrow> format_value lib v)"

text \<open>
  One round of the loops that build \<^verbatim>\<open>content1\<close> and \<^verbatim>\<open>content2\<close>: the line
  appended for \<open>msg\<close>, none when the content is not a string.
\<close>

definition display_line :: "pylib \<Rightarrow> json \<Rightarrow> error + string option" where
  "display_line lib msg =
     (case msg of
        JObj kv \<Rightarrow>
          (case dict_get kv ''message'' (JObj []) of
             JObj m \<Rightarrow>
               (let role = dict_get m ''role'' (JStr []);
                    text = dict_get m ''content'' (JStr [])
                in case text of
                     JStr t \<Rightarrow> Inr (Some (''['' @ fmt lib role @ '']: '' @ take 200 t @ ''...''))
                   | _ \<Rightarrow> Inr None)
           | _ \<Rightarrow> Inl AttributeError)
      | _ \<Rightarrow> Inl AttributeError)"

fun extract_content :: "pylib \<Rightarrow> json list \<Rightarrow> error + string list" where
  "extract_content lib [] = Inr []"
| "extract_content lib (msg # msgs) =
     (case display_line lib msg of
        Inl e \<Rightarrow> Inl e
      | Inr line \<Rightarrow>
          (case extract_content lib msgs of
             Inl e \<Rightarrow> Inl e
           | Inr rest \<Rightarrow> Inr (case line of None \<Rightarrow> rest | Some l \<Rightarrow> l # rest)))"

definition get_diff_between_checkpoints ::
  "pylib \<Rightarrow> string \<Rightarrow> string \<Rightarrow> manager \<Rightarrow> error + string list"
where
  "get_diff_between_checkpoints lib cid1 cid2 s =
     (case get_checkpoint_messages lib cid1 s of
        Inl e \<Rightarrow> Inl e
      | Inr messages1 \<Rightarrow>
          (case get_checkpoint_messages lib cid2 s of
             Inl e \<Rightarrow> Inl e
           | Inr messages2 \<Rightarrow>
               (case extract_content lib messages1 of
                  Inl e \<Rightarrow> Inl e
                | Inr content1 \<Rightarrow>
                    (case extract_content lib messages2 of
                       Inl e \<Rightarrow> Inl e
                     | Inr content2 \<Rightarrow>
                         Inr (unified_diff lib content1 content2
                                (''Checkpoint '' @ take 8 cid1)
                                (''Checkpoint '' @ take 8 cid2))))))"

section \<open>Timeline\<close>

datatype tree = Node checkpoint "tree list"

record timeline =
  tl_session_id :: string
  total_checkpoints :: nat
  branches :: "string list"
  tree :: "tree list"

text \<open>The results of a list comprehension whose elements may raise: the first exception wins.\<close>

fun collect :: "(error + 'a) list \<Rightarrow> error + 'a list" where
  "collect [] = Inr []"
| "collect (r # rs) =
     (case r of
        Inl e \<Rightarrow> Inl e
      | Inr x \<Rightarrow> (case collect rs of Inl e \<Rightarrow> Inl e | Inr xs \<Rightarrow> Inr (x # xs)))"

text \<open>
  The local function \<^verbatim>\<open>build_tree\<close>; its first argument is the number of stack frames
  still allowed, as for the store.
\<close>

fun build_tree :: "nat \<Rightarrow> checkpoint list \<Rightarrow> checkpoint \<Rightarrow> error + tree" where
  "build_tree 0 checkpoints cp = Inl RecursionError"
| "build_tree (Suc n) checkpoints cp =
     (case collect (map (build_tree n checkpoints)
                      (filter (\<lambda>c. parent_checkpoint_id c = Some (checkpoint_id cp)) checkpoints)) of
        Inl e \<Rightarrow> Inl e
      | Inr children \<Rightarrow> Inr (Node cp children))"

definition get_timeline ::
  "pylib \<Rightarrow> nat \<Rightarrow> string \<Rightarrow> manager \<Rightarrow> (error + timeline) \<times> manager"
where
  "get_timeline lib depth sid s =
     (case get_checkpoints lib depth (Some sid) False s of
        (Inl e, s1) \<Rightarrow> (Inl e, s1)
      | (Inr checkpoints, s1) \<Rightarrow>
          (case collect (map (build_tree depth checkpoints)
                           (filter (\<lambda>c. parent_checkpoint_id c = None) checkpoints)) of
             Inl e \<Rightarrow> (Inl e, s1)
           | Inr forest \<Rightarrow>
               (Inr \<lparr>tl_session_id = sid,
                     total_checkpoints = length checkpoints,
                     branches = List.map_filter
                                  (\<lambda>c. case branch_name c of
                                         None \<Rightarrow> None
                                       | Some b \<Rightarrow> (if b \<noteq> [] then Some b else None))
                                  checkpoints,
                     tree = forest\<rparr>, s1)))"

section \<open>Notions used to state the properties\<close>

text \<open>The number of nodes of a tree, and its checkpoints in preorder.\<close>

fun tree_size :: "tree \<Rightarrow> nat" where
  "tree_size (Node cp ts) = Suc (sum_list (map tree_size ts))"

fun tree_nodes :: "tree \<Rightarrow> checkpoint list" where
  "tree_nodes (Node cp ts) = cp # concat (map tree_nodes ts)"

fun tree_root :: "tree \<Rightarrow> checkpoint" where
  "tree_root (Node cp ts) = cp"

text \<open>
  The records of a log, in order: the values of the lines that are not blank and that
  parse. A record is an object when it is a JSON object, that is a Python dict.
\<close>

definition records :: "pylib \<Rightarrow> string list \<Rightarrow> json list" where
  "records lib ls =
     List.map_filter (\<lambda>l. if strip l = [] then None else loads lib (strip l)) ls"

definition is_object :: "json \<Rightarrow> bool" where
  "is_object d = (case d of JObj kv \<Rightarrow> True | _ \<Rightarrow> False)"

definition has_uuid :: "string \<Rightarrow> json \<Rightarrow> bool" where
  "has_uuid u d = (case d of JObj kv \<Rightarrow> dict_get kv ''uuid'' JNull = JStr u | _ \<Rightarrow> False)"

text \<open>The elements of a list from the first one through the first that satisfies \<open>P\<close>.\<close>

definition through_first :: "('a \<Rightarrow> bool) \<Rightarrow> 'a list \<Rightarrow> 'a list" where
  "through_first P xs = takeWhile (\<lambda>x. \<not> P x) xs @ take 1 (dropWhile (\<lambda>x. \<not> P x) xs)"

section \<open>Example data\<close>

text \<open>
  The values of \<^verbatim>\<open>json.loads\<close> and \<^verbatim>\<open>json.dumps\<close> on the few lines that the
  examples below use, and a store that holds an index file and one session log.
\<close>

definition sample_loads :: "string \<Rightarrow> json option" where
  \<open>sample_loads line =
     (if line = ''{"uuid": "m1"}'' then Some (JObj [(''uuid'', JStr ''m1'')])
      else if line = ''{"uuid": "m2"}'' then Some (JObj [(''uuid'', JStr ''m2'')])
      else if line = ''{"uuid": "m1", "sessionId": "s2"}''
        then Some (JObj [(''uuid'', JStr ''m1''), (''sessionId'', JStr ''s2'')])
      else if line = ''42'' then Some (JNum 42)
      else None)\<close>

definition sample_dumps :: "json \<Rightarrow> string" where
  \<open>sample_dumps v =
     (if v = JObj [(''uuid'', JStr ''m1'')] then ''{"uuid": "m1"}''
      else if v = JObj [(''uuid'', JStr ''m2'')] then ''{"uuid": "m2"}''
      else if v = JObj [(''uuid'', JStr ''m1''), (''sessionId'', JStr ''s2'')]
        then ''{"uuid": "m1", "sessionId": "s2"}''
      else if v = JNum 42 then ''42''
      else ''null'')\<close>

definition sample_lib :: pylib where
  "sample_lib =
     \<lparr>loads = sample_loads, dumps = sample_dumps,
      load_index = (\<lambda>ls. if ls = [''[]''] then Inr [] else Inl JSONDecodeError),
      dump_index = (\<lambda>cps. [''[]'']),
      format_value = (\<lambda>v. ''None''),
      unified_diff = (\<lambda>a b f t. [])\<rparr>"

definition sample_store :: manager where
  \<open>sample_store =
     \<lparr>checkpoints_dir = [''/'', ''store''],
      cache = Some [],
      files = [[''/'', ''store'', ''index.json''] \<mapsto> [''[]''],
               [''/'', ''p'', ''s1.jsonl''] \<mapsto>
                 [''{"uuid": "m1"}'', ''not json'', '''', ''  {"uuid": "m2"} '',
                  ''{"uuid": "m1"}'']]\<rparr>\<close>

text \<open>The same store with a log whose only line is the JSON number 42.\<close>

definition odd_store :: manager where
  \<open>odd_store =
     \<lparr>checkpoints_dir = [''/'', ''store''],
      cache = Some [],
      files = [[''/'', ''store'', ''index.json''] \<mapsto> [''[]''],
               [''/'', ''p'', ''s1.jsonl''] \<mapsto> [''42'']]\<rparr>\<close>

text \<open>A checkpoint with fixed labels, and a store that holds two checkpoints with their snapshots.\<close>

definition sample_checkpoint ::
  "string \<Rightarrow> string \<Rightarrow> string option \<Rightarrow> string option \<Rightarrow> checkpoint" where
  "sample_checkpoint cid sid parent branch =
     \<lparr>checkpoint_id = cid, session_id = sid, name = ''cp'', description = [], timestamp = 0,
      message_uuid = ''m1'', parent_checkpoint_id = parent, branch_name = branch\<rparr>"

definition restore_store :: manager where
  \<open>restore_store =
     \<lparr>checkpoints_dir = [''/'', ''store''],
      cache = Some [sample_checkpoint ''a'' ''s1'' None None,
                    sample_checkpoint ''b'' ''s1'' (Some ''a'') None],
      files = [[''/'', ''store'', ''index.json''] \<mapsto> [''[]''],
               [''/'', ''store'', ''a'', ''session.jsonl''] \<mapsto> [''{"uuid": "m1"}''],
               [''/'', ''store'', ''b'', ''session.jsonl''] \<mapsto>
                 [''{"uuid": "m1"}'', ''{"uuid": "m2"}''],
               [''/'', ''p'', ''s1.jsonl''] \<mapsto>
                 [''{"uuid": "m1"}'', ''{"uuid": "m2"}'', ''{"uuid": "m3"}'']]\<rparr>\<close>

text \<open>A store whose first checkpoint names itself as its parent.\<close>

definition loop_store :: manager where
  "loop_store =
     \<lparr>checkpoints_dir = [''/'', ''store''],
      cache = Some [sample_checkpoint ''a'' ''s1'' (Some ''a'') None,
                    sample_checkpoint ''b'' ''s1'' (Some ''a'') None],
      files = [[''/'', ''store'', ''index.json''] \<mapsto> [''[]'']]\<rparr>"



definition branch_store :: manager where
  "branch_store =
     \<lparr>checkpoints_dir = [''/'', ''store''],
      cache = Some [sample_checkpoint ''a'' ''s1'' None (Some ''fork''),
                    sample_checkpoint ''b'' ''s1'' (Some ''a'') (Some ''fork'')],
      files = [[''/'', ''store'', ''index.json''] \<mapsto> [''[]'']]\<rparr>"

definition fork_store :: manager where
  "fork_store =
     \<lparr>checkpoints_dir = [''/'', ''store''],
      cache = Some [sample_checkpoint ''a'' ''s1'' None None,
                    sample_checkpoint ''f'' ''s2'' (Some ''a'') (Some ''fork'')],
      files = [[''/'', ''store'', ''index.json''] \<mapsto> [''[]'']]\<rparr>"

text \<open>A manager that has loaded nothing yet, on a disk with no index file and no log.\<close>

definition fresh_store :: manager where
  "fresh_store = \<lparr>checkpoints_dir = [''/'', ''store''], cache = None, files = Map.empty\<rparr>"

section \<open>Paths and files: basic facts\<close>

lemmas path_eval = Path_def parse_parts_def is_absolute_def join_def path_name_def
  snapshot_path_def checkpoints_file_def

lemmas sample_eval = sample_lib_def sample_loads_def sample_dumps_def strip_def isspace_def

lemma join_index: "join p ''index.json'' = p @ [''index.json'']"
  by (simp add: join_def is_absolute_def parse_parts_def)

lemma join_session: "join p ''session.jsonl'' = p @ [''session.jsonl'']"
  by (simp add: join_def is_absolute_def parse_parts_def)

lemma path_name_snoc: "x \<noteq> ''/'' \<Longrightarrow> path_name (p @ [x]) = x"
  by (simp add: path_name_def)

lemma name_checkpoints_file: "path_name (checkpoints_file s) = ''index.json''"
  by (simp add: checkpoints_file_def join_index path_name_snoc)

lemma name_snapshot_path: "path_name (snapshot_path s cid) = ''session.jsonl''"
  by (simp add: snapshot_path_def join_session path_name_snoc)

lemma snapshot_not_index: "snapshot_path s cid \<noteq> checkpoints_file s'"
proof
  assume "snapshot_path s cid = checkpoints_file s'"
  then have "path_name (snapshot_path s cid) = path_name (checkpoints_file s')" by simp
  then show False by (simp add: name_checkpoints_file name_snapshot_path)
qed

lemma exists_index: "exists s (checkpoints_file s) = (files s (checkpoints_file s) \<noteq> None)"
  by (simp add: exists_def name_checkpoints_file)

lemma file_at_index: "file_at s (checkpoints_file s) = files s (checkpoints_file s)"
  by (simp add: file_at_def name_checkpoints_file)

lemma exists_snapshot: "exists s (snapshot_path s cid) = (files s (snapshot_path s cid) \<noteq> None)"
  by (simp add: exists_def name_snapshot_path)

lemma file_at_snapshot: "file_at s (snapshot_path s cid) = files s (snapshot_path s cid)"
  by (simp add: file_at_def name_snapshot_path)

lemma checkpoints_file_write [simp]:
  "checkpoints_file (write_file p ls s) = checkpoints_file s"
  "checkpoints_file (s\<lparr>cache := c\<rparr>) = checkpoints_file s"
  by (simp_all add: checkpoints_file_def write_file_def)

lemma snapshot_path_write [simp]:
  "snapshot_path (write_file p ls s) cid = snapshot_path s cid"
  "snapshot_path (s\<lparr>cache := c\<rparr>) cid = snapshot_path s cid"
  by (simp_all add: snapshot_path_def write_file_def)

lemma write_file_simps [simp]:
  "files (write_file p ls s) = (files s)(p \<mapsto> ls)"
  "cache (write_file p ls s) = cache s"
  "checkpoints_dir (write_file p ls s) = checkpoints_dir s"
  "write_file p ls (s\<lparr>cache := c\<rparr>) = (write_file p ls s)\<lparr>cache := c\<rparr>"
  by (simp_all add: write_file_def)

lemma exists_write: "exists (write_file p ls s) q = (q = p \<or> exists s q)"
  by (auto simp: exists_def)

lemma file_at_write:
  "file_at (write_file p ls s) q =
     (if q = p \<and> path_name p \<noteq> [] then Some ls else file_at s q)"
  by (auto simp: file_at_def)

lemma exists_cache [simp]: "exists (s\<lparr>cache := c\<rparr>) q = exists s q"
  by (simp add: exists_def)

lemma file_at_cache [simp]: "file_at (s\<lparr>cache := c\<rparr>) q = file_at s q"
  by (simp add: file_at_def)

section \<open>The store: what the mutual recursion computes\<close>

text \<open>
  Without an index file the two functions call each other until the stack is used up,
  whatever the number of frames allowed.
\<close>

lemma store_missing_index:
  "\<not> exists s (checkpoints_file s) \<Longrightarrow> ensure_dir_exists lib n s = (Inl RecursionError, s)"
  "\<not> exists s (checkpoints_file s) \<Longrightarrow> save_checkpoints lib n cps s = (Inl RecursionError, s)"
  by (induction lib n s and lib n cps s rule: ensure_dir_exists_save_checkpoints.induct) simp_all

lemma ensure_eq:
  "ensure_dir_exists lib n s =
     (if 0 < n \<and> exists s (checkpoints_file s) then Inr () else Inl RecursionError, s)"
  by (cases "exists s (checkpoints_file s)"; cases n) (auto simp: store_missing_index)

lemma save_eq:
  "save_checkpoints lib n cps s =
     (if 2 \<le> n \<and> exists s (checkpoints_file s)
      then (Inr (), (write_file (checkpoints_file s) (dump_index lib cps) s)\<lparr>cache := Some cps\<rparr>)
      else (Inl RecursionError, s))"
proof (cases n)
  case 0
  then show ?thesis by simp
next
  case (Suc m)
  then show ?thesis by (cases m) (auto simp: ensure_eq)
qed

lemma save_frame:
  assumes "save_checkpoints lib n cps s = (r, s')"
  shows "checkpoints_dir s' = checkpoints_dir s"
    and "p \<noteq> checkpoints_file s \<Longrightarrow> files s' p = files s p"
  using assms by (auto simp: save_eq split: if_splits)

lemma load_cache_frame:
  "load_cache lib n s = (r, s') \<Longrightarrow> checkpoints_dir s' = checkpoints_dir s \<and> files s' = files s"
  unfolding load_cache_def
  by (auto simp: ensure_eq split: sum.splits option.splits if_splits)

lemma get_checkpoints_frame:
  "get_checkpoints lib n sid f s = (r, s') \<Longrightarrow>
   checkpoints_dir s' = checkpoints_dir s \<and> files s' = files s"
  unfolding get_checkpoints_def
  by (auto split: option.splits if_splits sum.splits prod.splits dest: load_cache_frame)

lemma get_checkpoints_cached:
  "cache s = Some cps \<Longrightarrow> get_checkpoints lib n None False s = (Inr cps, s)"
  by (simp add: get_checkpoints_def)

lemma get_checkpoints_cache:
  "get_checkpoints lib n None False s = (Inr cps, s') \<Longrightarrow> cache s' = Some cps"
  unfolding get_checkpoints_def load_cache_def
  by (auto simp: ensure_eq split: sum.splits option.splits if_splits)

lemma load_cache_write:
  assumes "p \<noteq> checkpoints_file s" and "load_cache lib n s = (r, s')"
  shows "load_cache lib n (write_file p ls s) = (r, write_file p ls s')"
  using assms unfolding load_cache_def
  by (auto simp: ensure_eq exists_write file_at_write split: option.splits sum.splits if_splits)

lemma get_checkpoints_write:
  assumes "p \<noteq> checkpoints_file s" and "get_checkpoints lib n sid f s = (r, s')"
  shows "get_checkpoints lib n sid f (write_file p ls s) = (r, write_file p ls s')"
proof -
  obtain r0 s0 where l: "load_cache lib n s = (r0, s0)" by (cases "load_cache lib n s")
  from load_cache_write [OF assms(1) l]
  have l': "load_cache lib n (write_file p ls s) = (r0, write_file p ls s0)" .
  from assms(2) show ?thesis
    unfolding get_checkpoints_def using l l'
    by (auto split: option.splits sum.splits if_splits)
qed

section \<open>Properties of Create\<close>

lemma records_Cons:
  "records lib (l # ls) =
     (if strip l = [] then records lib ls
      else (case loads lib (strip l) of None \<Rightarrow> records lib ls | Some d \<Rightarrow> d # records lib ls))"
  by (simp add: records_def List.map_filter_simps split: option.splits)

lemma through_first_Cons:
  "through_first P (x # xs) = (if P x then [x] else x # through_first P xs)"
  by (simp add: through_first_def)

lemma through_first_none: "\<forall>x \<in> set xs. \<not> P x \<Longrightarrow> through_first P xs = xs"
  by (induction xs) (simp_all add: through_first_Cons through_first_def)

text \<open>On a log whose records are objects the reading loop ends without an exception.\<close>

lemma read_until_objects:
  "\<forall>d \<in> set (records lib ls). is_object d \<Longrightarrow>
   read_until lib u ls = Inr (through_first (has_uuid u) (records lib ls))"
proof (induction ls)
  case Nil
  show ?case by (simp add: records_def List.map_filter_simps through_first_def)
next
  case (Cons l ls)
  show ?case
  proof (cases "strip l = []")
    case True
    with Cons show ?thesis by (simp add: records_Cons)
  next
    case False
    show ?thesis
    proof (cases "loads lib (strip l)")
      case None
      with False Cons show ?thesis by (simp add: records_Cons)
    next
      case (Some d)
      with False Cons.prems have obj: "is_object d"
        and rest: "\<forall>d \<in> set (records lib ls). is_object d"
        by (simp_all add: records_Cons)
      from obj obtain kv where d: "d = JObj kv" by (cases d) (simp_all add: is_object_def)
      from Cons.IH [OF rest] False Some d show ?thesis
        by (simp add: records_Cons through_first_Cons has_uuid_def)
    qed
  qed
qed

text \<open>
  Once the snapshot is written, nothing that follows in \<^verbatim>\<open>create_checkpoint\<close> touches
  it, whether the call returns or raises.
\<close>

lemma create_files:
  assumes "file_at s (Path sp) = Some ls"
    and "read_until lib muuid ls = Inr msgs"
  shows "files (snd (create_checkpoint lib depth uuid4 now sid sp muuid nm descr parent branch s))
           (snapshot_path s uuid4) = Some (map (dumps lib) msgs)"
proof -
  let ?snap = "snapshot_path s uuid4"
  let ?s1 = "write_file ?snap (map (dumps lib) msgs) s"
  from assms(1) have ex: "exists s (Path sp)"
    by (auto simp: file_at_def exists_def split: if_splits)
  obtain r2 s2 where g: "get_checkpoints lib depth None False ?s1 = (r2, s2)"
    by (cases "get_checkpoints lib depth None False ?s1")
  from get_checkpoints_frame [OF g] have f2: "files s2 = files ?s1"
    by simp
  have ne: "?snap \<noteq> checkpoints_file s2"
    by (rule snapshot_not_index)
  show ?thesis
  proof (cases r2)
    case (Inl e)
    with ex assms g f2 show ?thesis
      by (simp add: create_checkpoint_def Let_def)
  next
    case (Inr cps)
    let ?cp = "\<lparr>checkpoint_id = uuid4, session_id = sid, name = nm, description = descr,
                timestamp = now, message_uuid = muuid, parent_checkpoint_id = parent,
                branch_name = branch\<rparr>"
    obtain r3 s3 where
      sv: "save_checkpoints lib depth (cps @ [?cp]) (s2\<lparr>cache := Some (cps @ [?cp])\<rparr>) = (r3, s3)"
      by (cases "save_checkpoints lib depth (cps @ [?cp]) (s2\<lparr>cache := Some (cps @ [?cp])\<rparr>)")
    from save_frame(2) [OF sv, of ?snap] ne have "files s3 ?snap = files s2 ?snap"
      by simp
    with f2 have "files s3 ?snap = Some (map (dumps lib) msgs)" by simp
    with ex assms g Inr sv show ?thesis
      by (cases r3) (simp_all add: create_checkpoint_def Let_def)
  qed
qed

text \<open>
  C5, as the code has it. For a session log whose records are JSON objects, the snapshot
  that Create writes holds, in order, the records from the first line through the first
  record whose \<open>uuid\<close> is the target, each as \<^verbatim>\<open>json.dumps\<close> renders it; blank lines and
  lines that do not parse are skipped; and when no record has the target \<open>uuid\<close> the
  snapshot holds every record of the log. This is so whether or not the rest of Create
  succeeds.
\<close>

theorem create_snapshot_content:
  assumes "file_at s (Path session_path) = Some ls"
    and "\<forall>d \<in> set (records lib ls). is_object d"
  shows "files (snd (create_checkpoint lib depth uuid4 now sid session_path muuid nm descr
                       parent branch s)) (snapshot_path s uuid4)
           = Some (map (dumps lib) (through_first (has_uuid muuid) (records lib ls))) \<and>
         ((\<forall>d \<in> set (records lib ls). \<not> has_uuid muuid d) \<longrightarrow>
            through_first (has_uuid muuid) (records lib ls) = records lib ls)"
  using create_files [OF assms(1) read_until_objects [OF assms(2)]]
  by (simp add: through_first_none)

theorem create_snapshot_content_witness:
  \<open>files (snd (create_checkpoint sample_lib 2 ''id1'' 0 ''s1'' ''/p/s1.jsonl'' ''m2'' ''cp'' ''''
                 None None sample_store)) [''/'', ''store'', ''id1'', ''session.jsonl'']
     = Some [''{"uuid": "m1"}'', ''{"uuid": "m2"}'']\<close>
proof -
  let ?log = \<open>[''{"uuid": "m1"}'', ''not json'', '''', ''  {"uuid": "m2"} '', ''{"uuid": "m1"}'']\<close>
  have recs: "records sample_lib ?log =
      [JObj [(''uuid'', JStr ''m1'')], JObj [(''uuid'', JStr ''m2'')], JObj [(''uuid'', JStr ''m1'')]]"
    by (simp add: records_def List.map_filter_simps sample_eval)
  have h1: "file_at sample_store (Path ''/p/s1.jsonl'') = Some ?log"
    by (simp add: file_at_def sample_store_def path_eval)
  have h2: "\<forall>d \<in> set (records sample_lib ?log). is_object d"
    by (simp add: recs is_object_def)
  have sp: "snapshot_path sample_store ''id1'' = [''/'', ''store'', ''id1'', ''session.jsonl'']"
    by (simp add: sample_store_def path_eval)
  have cut: \<open>map (dumps sample_lib) (through_first (has_uuid ''m2'') (records sample_lib ?log))
      = [''{"uuid": "m1"}'', ''{"uuid": "m2"}'']\<close>
    unfolding recs
    by (simp add: through_first_def has_uuid_def dict_get_def sample_lib_def sample_dumps_def)
  from create_snapshot_content [OF h1 h2, of 2 "''id1''" 0 "''s1''" "''m2''" "''cp''" "[]" None None]
  show ?thesis
    unfolding sp cut by simp
qed

text \<open>
  The claim as written speaks of every log. On a log whose one line is the JSON number
  42 the record parses, the loop asks it for its \<open>uuid\<close>, and Create raises
  \<^verbatim>\<open>AttributeError\<close> before it writes any snapshot.
\<close>

theorem create_snapshot_content_counterexample:
  \<open>file_at odd_store (Path ''/p/s1.jsonl'') = Some [''42''] \<and>
   records sample_lib [''42''] = [JNum 42] \<and>
   create_checkpoint sample_lib 2 ''id1'' 0 ''s1'' ''/p/s1.jsonl'' ''m1'' ''cp'' '''' None None odd_store
     = (Inl AttributeError, odd_store) \<and>
   files odd_store (snapshot_path odd_store ''id1'') = None\<close>
  by (simp add: create_checkpoint_def exists_def file_at_def odd_store_def path_eval
      records_def List.map_filter_simps sample_eval)

text \<open>
  Create with an index file in place, a stack of at least two frames, an index that can
  be read and a log that is absent or whose records are objects: the call returns the
  new checkpoint, whatever the parent id, and leaves the old entries followed by the new
  one both in the cache and in the index file.
\<close>

lemma create_appends:
  assumes idx: "files s (checkpoints_file s) \<noteq> None"
    and depth: "2 \<le> depth"
    and cps: "get_checkpoints lib depth None False s = (Inr cps, s0)"
    and log: "exists s (Path session_path) \<longrightarrow>
              (\<exists>ls. file_at s (Path session_path) = Some ls \<and>
                    (\<forall>d \<in> set (records lib ls). is_object d))"
    and cp: "cp = \<lparr>checkpoint_id = uuid4, session_id = sid, name = nm, description = descr,
                timestamp = now, message_uuid = muuid, parent_checkpoint_id = parent,
                branch_name = branch\<rparr>"
  shows "\<exists>s'. create_checkpoint lib depth uuid4 now sid session_path muuid nm descr parent branch s
               = (Inr cp, s') \<and>
              cache s' = Some (cps @ [cp]) \<and>
              file_at s' (checkpoints_file s) = Some (dump_index lib (cps @ [cp])) \<and>
              (\<forall>p. p \<noteq> checkpoints_file s \<longrightarrow> p \<noteq> snapshot_path s uuid4 \<longrightarrow>
                   files s' p = files s p) \<and>
              (\<not> exists s (Path session_path) \<longrightarrow>
                   files s' (snapshot_path s uuid4) = files s (snapshot_path s uuid4)) \<and>
              checkpoints_dir s' = checkpoints_dir s"
proof -
  let ?step = "(if exists s (Path session_path) then
                 (case file_at s (Path session_path) of
                    None \<Rightarrow> (Inl IOError, s)
                  | Some ls \<Rightarrow>
                      (case read_until lib muuid ls of
                         Inl e \<Rightarrow> (Inl e, s)
                       | Inr msgs \<Rightarrow>
                           (Inr (), write_file (snapshot_path s uuid4)
                                      (map (dumps lib) msgs) s)))
               else (Inr (), s))"
  have ne: "snapshot_path s uuid4 \<noteq> checkpoints_file s" by (rule snapshot_not_index)
  from get_checkpoints_frame [OF cps] have s0: "s0 = s\<lparr>cache := cache s0\<rparr>" by simp
  have step: "\<exists>s1. ?step = (Inr (), s1) \<and>
            get_checkpoints lib depth None False s1 = (Inr cps, s1\<lparr>cache := cache s0\<rparr>) \<and>
            files s1 (checkpoints_file s) \<noteq> None \<and> checkpoints_dir s1 = checkpoints_dir s \<and>
            (\<forall>p. p \<noteq> snapshot_path s uuid4 \<longrightarrow> files s1 p = files s p) \<and>
            (\<not> exists s (Path session_path) \<longrightarrow> s1 = s)"
  proof (cases "exists s (Path session_path)")
    case False
    with cps idx s0 show ?thesis by auto
  next
    case True
    with log obtain ls where ls: "file_at s (Path session_path) = Some ls"
      and obj: "\<forall>d \<in> set (records lib ls). is_object d" by blast
    let ?w = "write_file (snapshot_path s uuid4)
                (map (dumps lib) (through_first (has_uuid muuid) (records lib ls)))"
    from s0 have "?w s0 = (?w s)\<lparr>cache := cache s0\<rparr>"
      by (metis write_file_simps(4))
    with get_checkpoints_write [OF ne cps]
    have "get_checkpoints lib depth None False (?w s) = (Inr cps, (?w s)\<lparr>cache := cache s0\<rparr>)"
      by simp
    with True ls read_until_objects [OF obj, of muuid] idx ne show ?thesis
      by (auto simp del: write_file_simps(4))
  qed
  then obtain s1 where a: "?step = (Inr (), s1)"
    and b: "get_checkpoints lib depth None False s1 = (Inr cps, s1\<lparr>cache := cache s0\<rparr>)"
    and c: "files s1 (checkpoints_file s) \<noteq> None"
    and d: "checkpoints_dir s1 = checkpoints_dir s"
    and e: "\<forall>p. p \<noteq> snapshot_path s uuid4 \<longrightarrow> files s1 p = files s p"
    and f: "\<not> exists s (Path session_path) \<longrightarrow> s1 = s" by blast
  let ?s2 = "s1\<lparr>cache := cache s0, cache := Some (cps @ [cp])\<rparr>"
  have cf: "checkpoints_file ?s2 = checkpoints_file s"
    using d by (simp add: checkpoints_file_def)
  have ex: "exists ?s2 (checkpoints_file ?s2)"
    unfolding cf using c by (simp add: exists_def)
  have sv: "save_checkpoints lib depth (cps @ [cp]) ?s2 =
      (Inr (), (write_file (checkpoints_file s) (dump_index lib (cps @ [cp])) ?s2)
                 \<lparr>cache := Some (cps @ [cp])\<rparr>)"
    using ex depth cf by (simp add: save_eq)
  have nm: "path_name (checkpoints_file s) \<noteq> []"
    by (simp add: name_checkpoints_file)
  have cid: "checkpoint_id cp = uuid4" by (simp add: cp)
  note a' = a [folded cid]
  show ?thesis
    unfolding create_checkpoint_def Let_def cp [symmetric] a'
    using b sv nm e f ne d by (auto simp: file_at_write cid)
qed

text \<open>
  C9, as the code has it. Create does not look at the supplied parent id. Whenever the
  index file exists and can be read, the stack allows two more frames, and the session
  log is absent or its records are JSON objects, Create returns for every parent id,
  and it appends exactly one entry, which carries that parent id; when the id is that of
  no checkpoint, the index then holds a checkpoint whose parent resolves to nothing.
\<close>

theorem create_accepts_any_parent:
  assumes "files s (checkpoints_file s) \<noteq> None"
    and "2 \<le> depth"
    and "get_checkpoints lib depth None False s = (Inr cps, s0)"
    and "exists s (Path session_path) \<longrightarrow>
           (\<exists>ls. file_at s (Path session_path) = Some ls \<and>
                 (\<forall>d \<in> set (records lib ls). is_object d))"
  shows "\<exists>cp s'.
           create_checkpoint lib depth uuid4 now sid session_path muuid nm descr parent branch s
             = (Inr cp, s') \<and>
           checkpoint_id cp = uuid4 \<and> parent_checkpoint_id cp = parent \<and>
           cache s' = Some (cps @ [cp]) \<and>
           file_at s' (checkpoints_file s) = Some (dump_index lib (cps @ [cp])) \<and>
           (\<forall>p. parent = Some p \<and> p \<noteq> uuid4 \<and> (\<forall>c \<in> set cps. checkpoint_id c \<noteq> p) \<longrightarrow>
                (\<forall>c \<in> set (cps @ [cp]). checkpoint_id c \<noteq> p))"
proof -
  let ?cp = "\<lparr>checkpoint_id = uuid4, session_id = sid, name = nm, description = descr,
              timestamp = now, message_uuid = muuid, parent_checkpoint_id = parent,
              branch_name = branch\<rparr>"
  from create_appends [OF assms, of ?cp uuid4 sid nm descr now muuid parent branch]
  obtain s' where
    "create_checkpoint lib depth uuid4 now sid session_path muuid nm descr parent branch s
       = (Inr ?cp, s')"
    "cache s' = Some (cps @ [?cp])"
    "file_at s' (checkpoints_file s) = Some (dump_index lib (cps @ [?cp]))"
    by auto
  then show ?thesis
    by (intro exI [of _ ?cp] exI [of _ s']) auto
qed

theorem create_accepts_any_parent_witness:
  "\<exists>cp s'.
     create_checkpoint sample_lib 2 ''id1'' 0 ''s1'' ''/p/s1.jsonl'' ''m1'' ''cp'' [] (Some ''ghost'')
       None sample_store = (Inr cp, s') \<and>
     checkpoint_id cp = ''id1'' \<and> parent_checkpoint_id cp = Some ''ghost'' \<and>
     cache s' = Some [cp] \<and>
     checkpoint_id cp \<noteq> ''ghost''"
proof -
  have h1: "files sample_store (checkpoints_file sample_store) \<noteq> None"
    by (simp add: sample_store_def path_eval)
  have h2: "(2::nat) \<le> 2" by simp
  have h3: "get_checkpoints sample_lib 2 None False sample_store = (Inr [], sample_store)"
    by (rule get_checkpoints_cached) (simp add: sample_store_def)
  have h4: "exists sample_store (Path ''/p/s1.jsonl'') \<longrightarrow>
      (\<exists>ls. file_at sample_store (Path ''/p/s1.jsonl'') = Some ls \<and>
            (\<forall>d \<in> set (records sample_lib ls). is_object d))"
    by (simp add: file_at_def sample_store_def path_eval records_def List.map_filter_simps
        sample_eval is_object_def)
  from create_accepts_any_parent [OF h1 h2 h3 h4, of "''id1''" 0 "''s1''" "''m1''" "''cp''" "[]"
      "Some ''ghost''" None]
  show ?thesis by auto
qed

text \<open>
  The claim as written has Create succeed on every input. With the log of one line 42
  it raises \<^verbatim>\<open>AttributeError\<close> and appends nothing.
\<close>

theorem create_accepts_any_parent_counterexample:
  "fst (create_checkpoint sample_lib 2 ''id2'' 0 ''s1'' ''/p/s1.jsonl'' ''m1'' ''cp'' []
          (Some ''ghost'') None odd_store) = Inl AttributeError \<and>
   cache (snd (create_checkpoint sample_lib 2 ''id2'' 0 ''s1'' ''/p/s1.jsonl'' ''m1'' ''cp'' []
          (Some ''ghost'') None odd_store)) = Some []"
  by (simp add: create_checkpoint_def exists_def file_at_def odd_store_def path_eval sample_eval)

text \<open>
  C6 on a store that has an index file: with no log at the given path, Create returns
  the checkpoint, records it, and writes no snapshot; a Restore or a Fork of that
  checkpoint right after returns its failure value and leaves the state as it is.
\<close>

lemma create_without_log:
  assumes "files s (checkpoints_file s) \<noteq> None"
    and "2 \<le> depth"
    and "get_checkpoints lib depth None False s = (Inr cps, s0)"
    and nolog: "\<not> exists s (Path session_path)"
    and fresh: "files s (snapshot_path s uuid4) = None"
  shows "\<exists>cp s'.
           create_checkpoint lib depth uuid4 now sid session_path muuid nm descr parent branch s
             = (Inr cp, s') \<and>
           cache s' = Some (cps @ [cp]) \<and>
           files s' (snapshot_path s' uuid4) = None \<and>
           restore_checkpoint lib depth uuid4 live s' = (Inr False, s') \<and>
           fork_session lib depth uuid4' now' uuid4 new_sid project_path fork_branch s'
             = (Inr None, s')"
proof -
  let ?cp = "\<lparr>checkpoint_id = uuid4, session_id = sid, name = nm, description = descr,
              timestamp = now, message_uuid = muuid, parent_checkpoint_id = parent,
              branch_name = branch\<rparr>"
  from nolog have log: "exists s (Path session_path) \<longrightarrow>
      (\<exists>ls. file_at s (Path session_path) = Some ls \<and> (\<forall>d \<in> set (records lib ls). is_object d))"
    by simp
  from create_appends [OF assms(1-3) log, of ?cp uuid4 sid nm descr now muuid parent branch] nolog
  obtain s' where cr:
    "create_checkpoint lib depth uuid4 now sid session_path muuid nm descr parent branch s
       = (Inr ?cp, s')"
    and ca: "cache s' = Some (cps @ [?cp])"
    and sn: "files s' (snapshot_path s uuid4) = files s (snapshot_path s uuid4)"
    and di: "checkpoints_dir s' = checkpoints_dir s"
    by auto
  from di have sp: "snapshot_path s' uuid4 = snapshot_path s uuid4"
    by (simp add: snapshot_path_def)
  from sn fresh sp have none: "files s' (snapshot_path s' uuid4) = None" by simp
  then have nex: "\<not> exists s' (snapshot_path s' uuid4)"
    by (simp add: exists_snapshot)
  have gc: "get_checkpoint lib depth uuid4 s' =
      (Inr (find (\<lambda>c. checkpoint_id c = uuid4) (cps @ [?cp])), s')"
    by (simp add: get_checkpoint_def get_checkpoints_cached [OF ca])
  have re: "restore_checkpoint lib depth uuid4 live s' = (Inr False, s')"
    unfolding restore_checkpoint_def gc using nex
    by (cases "find (\<lambda>c. checkpoint_id c = uuid4) (cps @ [?cp])") simp_all
  have fo: "fork_session lib depth uuid4' now' uuid4 new_sid project_path fork_branch s'
      = (Inr None, s')"
    unfolding fork_session_def gc using nex
    by (cases "find (\<lambda>c. checkpoint_id c = uuid4) (cps @ [?cp])") simp_all
  from cr ca none re fo show ?thesis by blast
qed

text \<open>
  C6 on a store that has no index file yet, the state of a first run. Create is to
  return a checkpoint although the log is missing; the code sets out to write an empty
  index, but \<^verbatim>\<open>_ensure_dir_exists\<close> and \<^verbatim>\<open>_save_checkpoints\<close> call each other before
  the file is written, and Create raises \<^verbatim>\<open>RecursionError\<close> for every stack depth,
  recording nothing.
\<close>

theorem create_without_log_on_fresh_store:
  "create_checkpoint lib depth ''id1'' 0 ''s1'' ''/p/s1.jsonl'' ''m1'' ''cp'' [] None None fresh_store
     = (Inl RecursionError, fresh_store)"
proof -
  have nolog: "\<not> exists fresh_store (Path ''/p/s1.jsonl'')"
    by (simp add: exists_def fresh_store_def path_eval)
  have noidx: "\<not> exists fresh_store (checkpoints_file fresh_store)"
    by (simp add: exists_index fresh_store_def)
  have "get_checkpoints lib depth None False fresh_store = (Inl RecursionError, fresh_store)"
    using noidx by (simp add: get_checkpoints_def load_cache_def ensure_eq fresh_store_def)
  with nolog show ?thesis
    by (simp add: create_checkpoint_def)
qed

section \<open>Properties of Restore\<close>

lemma last_dot_bound: "last_dot n = Some i \<Longrightarrow> i < length n"
  by (induction n arbitrary: i) (auto split: option.splits if_splits)

lemma last_dot_no_later: "last_dot n = Some i \<Longrightarrow> CHR ''.'' \<notin> set (drop (Suc i) n)"
proof (induction n arbitrary: i)
  case Nil
  then show ?case by simp
next
  case (Cons c cs)
  show ?case
  proof (cases "last_dot cs")
    case None
    have "CHR ''.'' \<notin> set cs"
      using None by (induction cs) (auto split: option.splits if_splits)
    with Cons.prems None show ?thesis by (auto split: if_splits dest: in_set_dropD)
  next
    case (Some j)
    with Cons show ?thesis by auto
  qed
qed

lemma name_suffix_one_dot: "CHR ''.'' \<notin> set (drop 1 (name_suffix n))"
proof (cases "last_dot n")
  case None
  then show ?thesis by (simp add: name_suffix_def)
next
  case (Some i)
  from last_dot_no_later [OF Some] show ?thesis
    by (simp add: name_suffix_def Some)
qed

lemma name_suffix_drop: "\<exists>k. name_suffix n = drop k n \<and> k \<le> length n"
proof (cases "last_dot n")
  case None
  then show ?thesis by (auto simp: name_suffix_def intro: exI [of _ "length n"])
next
  case (Some i)
  from last_dot_bound [OF Some] show ?thesis
    by (auto simp: name_suffix_def Some intro: exI [of _ "length n"] exI [of _ i])
qed

lemma stem_suffix: "take (length n - length (name_suffix n)) n @ name_suffix n = n"
proof -
  from name_suffix_drop obtain k where k: "name_suffix n = drop k n" "k \<le> length n" by blast
  then show ?thesis by simp
qed

lemma backup_name_changes:
  "take (length n - length (name_suffix n)) n @ ''.jsonl.backup'' \<noteq> n"
proof
  assume eq: "take (length n - length (name_suffix n)) n @ ''.jsonl.backup'' = n"
  have "take (length n - length (name_suffix n)) n @ name_suffix n = n" by (rule stem_suffix)
  with eq have "take (length n - length (name_suffix n)) n @ ''.jsonl.backup''
      = take (length n - length (name_suffix n)) n @ name_suffix n" by simp
  then have "name_suffix n = ''.jsonl.backup''" by simp
  with name_suffix_one_dot [of n] show False by simp
qed

lemma backup_path_eq:
  "path_name p \<noteq> [] \<Longrightarrow>
   backup_path p =
     Inr (butlast p @ [take (length (last p) - length (name_suffix (last p))) (last p)
                        @ ''.jsonl.backup''])"
  by (auto simp: backup_path_def with_suffix_def Let_def path_name_def split: if_splits)

lemma backup_path_props:
  assumes "backup_path p = Inr b"
  shows "path_name p \<noteq> []" and "b \<noteq> p" and "butlast b = butlast p"
    and "path_name b \<noteq> []" and "b \<noteq> snapshot_path s cid"
proof -
  from assms show nm: "path_name p \<noteq> []"
    by (auto simp: backup_path_def with_suffix_def Let_def split: if_splits)
  let ?x = "take (length (last p) - length (name_suffix (last p))) (last p) @ ''.jsonl.backup''"
  from backup_path_eq [OF nm] assms have b: "b = butlast p @ [?x]" by simp
  from nm have p: "p \<noteq> []" by (auto simp: path_name_def)
  show "b \<noteq> p"
  proof
    assume "b = p"
    with b have "last p = ?x" by (metis last_snoc)
    with backup_name_changes [of "last p"] show False by simp
  qed
  from b show "butlast b = butlast p" by simp
  have x: "?x \<noteq> ''/''" by (cases "take (length (last p) - length (name_suffix (last p))) (last p)") auto
  from b x show "path_name b \<noteq> []" by (simp add: path_name_snoc)
  show "b \<noteq> snapshot_path s cid"
  proof
    assume "b = snapshot_path s cid"
    then have "path_name b = ''session.jsonl''" by (simp add: name_snapshot_path)
    with b x have "?x = ''session.jsonl''" by (simp add: path_name_snoc)
    then have "last ?x = last ''session.jsonl''" by simp
    then show False by simp
  qed
qed

lemma sample_backup_path:
  "backup_path [''/'', ''p'', ''s1.jsonl''] = Inr [''/'', ''p'', ''s1.jsonl.backup'']"
  "Path ''/p/s1.jsonl'' = [''/'', ''p'', ''s1.jsonl'']"
  by (simp_all add: backup_path_def with_suffix_def name_suffix_def path_eval)


lemma get_checkpoint_frame:
  "get_checkpoint lib depth cid s = (r, s1) \<Longrightarrow>
   checkpoints_dir s1 = checkpoints_dir s \<and> files s1 = files s"
  unfolding get_checkpoint_def
  by (auto split: prod.splits sum.splits dest: get_checkpoints_frame)

lemma file_at_cong: "files s' = files s \<Longrightarrow> file_at s' p = file_at s p"
  by (simp add: file_at_def)

lemma exists_cong: "files s' = files s \<Longrightarrow> exists s' p = exists s p"
  by (simp add: exists_def)

lemma snapshot_path_cong:
  "checkpoints_dir s' = checkpoints_dir s \<Longrightarrow> snapshot_path s' cid = snapshot_path s cid"
  by (simp add: snapshot_path_def)

lemma file_at_Some: "file_at s p = Some ls \<Longrightarrow> path_name p \<noteq> [] \<and> files s p = Some ls \<and> exists s p"
  by (auto simp: file_at_def exists_def split: if_splits)

text \<open>Restore of a checkpoint that is found, with its snapshot, onto an existing live file.\<close>

lemma restore_live:
  assumes gc: "get_checkpoint lib depth cid s = (Inr (Some cp), s1)"
    and snap: "file_at s (snapshot_path s cid) = Some snap"
    and live: "file_at s (Path session_path) = Some live"
  shows "\<exists>b. backup_path (Path session_path) = Inr b \<and>
             restore_checkpoint lib depth cid session_path s =
               (if snapshot_path s cid = Path session_path
                then (Inl SameFileError, write_file b live s1)
                else (Inr True, write_file (Path session_path) snap (write_file b live s1)))"
proof -
  let ?p = "Path session_path"
  let ?sn = "snapshot_path s cid"
  from get_checkpoint_frame [OF gc] have fr: "checkpoints_dir s1 = checkpoints_dir s" "files s1 = files s"
    by simp_all
  have sn1: "snapshot_path s1 cid = ?sn" by (rule snapshot_path_cong [OF fr(1)])
  from file_at_Some [OF live] have nm: "path_name ?p \<noteq> []" by simp
  from backup_path_eq [OF nm] obtain b where b: "backup_path ?p = Inr b" by blast
  note bp = backup_path_props [OF b]
  have ex_snap: "exists s1 ?sn" using file_at_Some [OF snap] fr(2) by (simp add: exists_def)
  have ex_live: "exists s1 ?p" using file_at_Some [OF live] fr(2) by (simp add: exists_def)
  have live1: "file_at s1 ?p = Some live" using live file_at_cong [OF fr(2)] by simp
  have snap1: "file_at s1 ?sn = Some snap" using snap file_at_cong [OF fr(2)] by simp
  have c1: "copy2 ?p b s1 = Inr (write_file b live s1)"
    using live1 bp(2,4) by (simp add: copy2_def)
  have snap2: "file_at (write_file b live s1) ?sn = Some snap"
    using snap1 bp(5) [of s cid] by (simp add: file_at_write)
  have c2: "copy2 ?sn ?p (write_file b live s1) =
      (if ?sn = ?p then Inl SameFileError
       else Inr (write_file ?p snap (write_file b live s1)))"
    using snap2 nm by (simp add: copy2_def)
  show ?thesis
    unfolding restore_checkpoint_def gc using b ex_snap ex_live c1 c2
    by (simp add: sn1 Let_def)
qed

lemma restore_missing:
  assumes "get_checkpoint lib depth cid s = (r, s1)"
    and "r = Inr None \<or> (\<exists>cp. r = Inr (Some cp) \<and> \<not> exists s (snapshot_path s cid))"
  shows "restore_checkpoint lib depth cid session_path s = (Inr False, s1) \<and> files s1 = files s"
proof -
  from get_checkpoint_frame [OF assms(1)] have fr: "checkpoints_dir s1 = checkpoints_dir s" "files s1 = files s"
    by simp_all
  have "exists s1 (snapshot_path s1 cid) = exists s (snapshot_path s cid)"
    using fr by (simp add: exists_def snapshot_path_def)
  with assms fr show ?thesis
    by (auto simp: restore_checkpoint_def)
qed

text \<open>
  C2 on a store whose index can be consulted. Restore of a checkpoint that is found and
  whose snapshot exists, onto a live session file that exists: the backup path is the
  live path with the final suffix of its name replaced by \<open>.jsonl.backup\<close>, and differs
  from it; the backup is written first and holds the live content as it was before the
  call. When the live path is not the snapshot itself the restore completes and the
  live file holds the snapshot; when it is, the restore stops with \<^verbatim>\<open>SameFileError\<close>
  and the live file is untouched. When the lookup finds no checkpoint, or the snapshot
  of the checkpoint found is missing, Restore returns \<open>False\<close> and no file has changed.
\<close>

lemma restore_found_or_missing:
  assumes "get_checkpoint lib depth cid s = (r, s1)"
  shows "(\<forall>cp snap live.
            r = Inr (Some cp) \<and> file_at s (snapshot_path s cid) = Some snap \<and>
            file_at s (Path session_path) = Some live \<longrightarrow>
            (\<exists>b out s'.
               backup_path (Path session_path) = Inr b \<and>
               b = butlast (Path session_path) @
                     [take (length (last (Path session_path))
                            - length (name_suffix (last (Path session_path))))
                        (last (Path session_path)) @ ''.jsonl.backup''] \<and>
               b \<noteq> Path session_path \<and>
               restore_checkpoint lib depth cid session_path s = (out, s') \<and>
               file_at s' b = Some live \<and>
               (if snapshot_path s cid = Path session_path
                then out = Inl SameFileError \<and> file_at s' (Path session_path) = Some live
                else out = Inr True \<and> file_at s' (Path session_path) = Some snap))) \<and>
         (r = Inr None \<or> (\<exists>cp. r = Inr (Some cp) \<and> \<not> exists s (snapshot_path s cid)) \<longrightarrow>
            restore_checkpoint lib depth cid session_path s = (Inr False, s1) \<and>
            files s1 = files s)"
proof (intro conjI allI impI)
  fix cp snap live
  assume h: "r = Inr (Some cp) \<and> file_at s (snapshot_path s cid) = Some snap \<and>
            file_at s (Path session_path) = Some live"
  let ?p = "Path session_path"
  from h assms have gc: "get_checkpoint lib depth cid s = (Inr (Some cp), s1)" by simp
  from h have snap: "file_at s (snapshot_path s cid) = Some snap"
    and live: "file_at s ?p = Some live" by simp_all
  from restore_live [OF gc snap live] obtain b where
    b: "backup_path ?p = Inr b"
    and re: "restore_checkpoint lib depth cid session_path s =
               (if snapshot_path s cid = ?p
                then (Inl SameFileError, write_file b live s1)
                else (Inr True, write_file ?p snap (write_file b live s1)))"
    by blast
  note bp = backup_path_props [OF b]
  from backup_path_eq [OF bp(1)] b have form:
    "b = butlast ?p @ [take (length (last ?p) - length (name_suffix (last ?p))) (last ?p)
                        @ ''.jsonl.backup'']" by simp
  from get_checkpoint_frame [OF gc] have fr: "files s1 = files s" by simp
  have live1: "file_at s1 ?p = Some live" using live file_at_cong [OF fr] by simp
  show "\<exists>b out s'.
               backup_path ?p = Inr b \<and>
               b = butlast ?p @ [take (length (last ?p) - length (name_suffix (last ?p))) (last ?p)
                                  @ ''.jsonl.backup''] \<and>
               b \<noteq> ?p \<and>
               restore_checkpoint lib depth cid session_path s = (out, s') \<and>
               file_at s' b = Some live \<and>
               (if snapshot_path s cid = ?p
                then out = Inl SameFileError \<and> file_at s' ?p = Some live
                else out = Inr True \<and> file_at s' ?p = Some snap)"
  proof (cases "snapshot_path s cid = ?p")
    case True
    have "file_at (write_file b live s1) b = Some live"
      "file_at (write_file b live s1) ?p = Some live"
      using bp live1 by (simp_all add: file_at_write)
    with True re b form bp(2) show ?thesis
      by (intro exI [of _ b] exI [of _ "Inl SameFileError"] exI [of _ "write_file b live s1"])
         (intro conjI; simp)
  next
    case False
    have "file_at (write_file ?p snap (write_file b live s1)) b = Some live"
      "file_at (write_file ?p snap (write_file b live s1)) ?p = Some snap"
      using bp live1 by (simp_all add: file_at_write)
    with False re b form bp(2) show ?thesis
      by (intro exI [of _ b] exI [of _ "Inr True"]
            exI [of _ "write_file ?p snap (write_file b live s1)"])
         (intro conjI; simp)
  qed
next
  assume "r = Inr None \<or> (\<exists>cp. r = Inr (Some cp) \<and> \<not> exists s (snapshot_path s cid))"
  from restore_missing [OF assms this]
  show "restore_checkpoint lib depth cid session_path s = (Inr False, s1)" by simp
next
  assume "r = Inr None \<or> (\<exists>cp. r = Inr (Some cp) \<and> \<not> exists s (snapshot_path s cid))"
  from restore_missing [OF assms this]
  show "files s1 = files s" by simp
qed


lemma restore_found_or_missing_example:
  \<open>restore_checkpoint sample_lib 2 ''a'' ''/p/s1.jsonl'' restore_store =
     (Inr True,
      write_file [''/'', ''p'', ''s1.jsonl''] [''{"uuid": "m1"}'']
        (write_file [''/'', ''p'', ''s1.jsonl.backup'']
           [''{"uuid": "m1"}'', ''{"uuid": "m2"}'', ''{"uuid": "m3"}''] restore_store)) \<and>
   restore_checkpoint sample_lib 2 ''a'' ''/store/a/session.jsonl'' restore_store =
     (Inl SameFileError,
      write_file [''/'', ''store'', ''a'', ''session.jsonl.backup''] [''{"uuid": "m1"}'']
        restore_store) \<and>
   restore_checkpoint sample_lib 2 ''zz'' ''/p/s1.jsonl'' restore_store = (Inr False, restore_store)\<close>
  by (simp add: restore_checkpoint_def get_checkpoint_def get_checkpoints_def restore_store_def
      sample_checkpoint_def exists_def file_at_def copy2_def backup_path_def with_suffix_def
      name_suffix_def write_file_def path_eval Let_def)


text \<open>
  C2 on a store that has no index file yet, the state of a first run. No checkpoint
  exists there, so every checkpoint is missing and Restore is to return its failure
  value. The lookup sets out to write an empty index, \<^verbatim>\<open>_ensure_dir_exists\<close> and
  \<^verbatim>\<open>_save_checkpoints\<close> call each other before the file is written, and Restore raises
  \<^verbatim>\<open>RecursionError\<close> for every checkpoint id, live path and stack depth. No file is
  touched.
\<close>

theorem restore_on_fresh_store:
  "restore_checkpoint lib depth cid session_path fresh_store = (Inl RecursionError, fresh_store)"
proof -
  have noidx: "\<not> exists fresh_store (checkpoints_file fresh_store)"
    by (simp add: exists_index fresh_store_def)
  have "get_checkpoints lib depth None False fresh_store = (Inl RecursionError, fresh_store)"
    using noidx by (simp add: get_checkpoints_def load_cache_def ensure_eq fresh_store_def)
  then show ?thesis
    by (simp add: restore_checkpoint_def get_checkpoint_def)
qed

lemma restore_no_live:
  assumes gc: "get_checkpoint lib depth cid s = (Inr (Some cp), s1)"
    and snap: "file_at s (snapshot_path s cid) = Some snap"
    and nolive: "\<not> exists s (Path session_path)"
  shows "restore_checkpoint lib depth cid session_path s =
           (Inr True, write_file (Path session_path) snap s1)"
proof -
  let ?p = "Path session_path"
  let ?sn = "snapshot_path s cid"
  from get_checkpoint_frame [OF gc] have fr: "checkpoints_dir s1 = checkpoints_dir s" "files s1 = files s"
    by simp_all
  have sn1: "snapshot_path s1 cid = ?sn" by (rule snapshot_path_cong [OF fr(1)])
  have ex_snap: "exists s1 ?sn" using file_at_Some [OF snap] fr(2) by (simp add: exists_def)
  have nex: "\<not> exists s1 ?p" using nolive exists_cong [OF fr(2)] by simp
  from nolive have nm: "path_name ?p \<noteq> []" and nf: "files s ?p = None"
    by (simp_all add: exists_def)
  have snap1: "file_at s1 ?sn = Some snap" using snap file_at_cong [OF fr(2)] by simp
  from file_at_Some [OF snap] nf have ne: "?sn \<noteq> ?p" by auto
  have c2: "copy2 ?sn ?p s1 = Inr (write_file ?p snap s1)"
    using snap1 nm ne by (simp add: copy2_def)
  show ?thesis
    unfolding restore_checkpoint_def gc using ex_snap nex c2
    by (simp add: sn1 Let_def)
qed

lemma restore_True_cases:
  assumes "restore_checkpoint lib depth cid session_path s = (Inr True, s')"
  shows "\<exists>cp s1 snap.
           get_checkpoint lib depth cid s = (Inr (Some cp), s1) \<and>
           file_at s (snapshot_path s cid) = Some snap \<and>
           path_name (Path session_path) \<noteq> [] \<and>
           snapshot_path s cid \<noteq> Path session_path \<and>
           (files s (Path session_path) = None \<and> s' = write_file (Path session_path) snap s1 \<or>
            (\<exists>live b. files s (Path session_path) = Some live \<and>
                      backup_path (Path session_path) = Inr b \<and>
                      s' = write_file (Path session_path) snap (write_file b live s1)))"
proof -
  let ?p = "Path session_path"
  let ?sn = "snapshot_path s cid"
  obtain r s1 where gc0: "get_checkpoint lib depth cid s = (r, s1)"
    by (cases "get_checkpoint lib depth cid s")
  from get_checkpoint_frame [OF gc0] have fr: "checkpoints_dir s1 = checkpoints_dir s" "files s1 = files s"
    by simp_all
  have sn1: "snapshot_path s1 cid = ?sn" by (rule snapshot_path_cong [OF fr(1)])
  from assms gc0 obtain cp where r: "r = Inr (Some cp)"
    by (auto simp: restore_checkpoint_def split: sum.splits option.splits)
  with gc0 have gc: "get_checkpoint lib depth cid s = (Inr (Some cp), s1)" by simp
  from assms gc have "exists s1 (snapshot_path s1 cid)"
    by (auto simp: restore_checkpoint_def Let_def split: if_splits)
  then have "files s ?sn \<noteq> None"
    using fr(2) by (simp add: sn1 exists_def name_snapshot_path)
  then obtain snap where snap: "file_at s ?sn = Some snap"
    by (auto simp: file_at_snapshot)
  have nm: "path_name ?p \<noteq> []"
  proof
    assume e: "path_name ?p = []"
    then have "exists s1 ?p" by (simp add: exists_def)
    moreover from e have "backup_path ?p = Inl ValueError"
      by (simp add: backup_path_def with_suffix_def)
    ultimately have "fst (restore_checkpoint lib depth cid session_path s) = Inl ValueError"
      using gc \<open>exists s1 (snapshot_path s1 cid)\<close>
      by (simp add: restore_checkpoint_def Let_def)
    with assms show False by simp
  qed
  show ?thesis
  proof (cases "files s ?p")
    case None
    with nm have "\<not> exists s ?p" by (simp add: exists_def)
    from restore_no_live [OF gc snap this] assms have "s' = write_file ?p snap s1" by simp
    moreover from file_at_Some [OF snap] None have "?sn \<noteq> ?p" by auto
    ultimately show ?thesis using gc snap nm None by blast
  next
    case (Some live)
    with nm have live: "file_at s ?p = Some live" by (simp add: file_at_def)
    from restore_live [OF gc snap live] obtain b where b: "backup_path ?p = Inr b"
      and re: "restore_checkpoint lib depth cid session_path s =
               (if ?sn = ?p then (Inl SameFileError, write_file b live s1)
                else (Inr True, write_file ?p snap (write_file b live s1)))" by blast
    from re assms have ne: "?sn \<noteq> ?p" and s': "s' = write_file ?p snap (write_file b live s1)"
      by (auto split: if_splits)
    with gc snap nm Some b show ?thesis by blast
  qed
qed

text \<open>
  C10. The backup path depends on the live path alone: it is the live path whose name,
  split into a stem and its final suffix, has that suffix replaced by
  \<open>.jsonl.backup\<close>; it differs from the live path. After two successful restores
  onto the same live path, the backup holds what the live file held just before the
  second restore, which is the snapshot that the first restore put there; the backup
  that the first restore took of an existing live file sat at the same path and has
  been replaced.
\<close>

theorem restore_twice_backup:
  assumes "restore_checkpoint lib depth cid1 session_path s0 = (Inr True, s1)"
    and "restore_checkpoint lib depth cid2 session_path s1 = (Inr True, s2)"
  shows "\<exists>b stem pre.
           backup_path (Path session_path) = Inr b \<and>
           last (Path session_path) = stem @ name_suffix (last (Path session_path)) \<and>
           b = butlast (Path session_path) @ [stem @ ''.jsonl.backup''] \<and>
           b \<noteq> Path session_path \<and>
           file_at s0 (snapshot_path s0 cid1) = Some pre \<and>
           file_at s1 (Path session_path) = Some pre \<and>
           file_at s2 b = Some pre \<and>
           (\<forall>live0. file_at s0 (Path session_path) = Some live0 \<longrightarrow> file_at s1 b = Some live0)"
proof -
  let ?p = "Path session_path"
  let ?stem = "take (length (last ?p) - length (name_suffix (last ?p))) (last ?p)"
  from restore_True_cases [OF assms(1)] obtain cp t1 pre where
    pre: "file_at s0 (snapshot_path s0 cid1) = Some pre"
    and nm: "path_name ?p \<noteq> []"
    and c1: "files s0 ?p = None \<and> s1 = write_file ?p pre t1 \<or>
            (\<exists>live b. files s0 ?p = Some live \<and> backup_path ?p = Inr b \<and>
                      s1 = write_file ?p pre (write_file b live t1))"
    by blast
  from backup_path_eq [OF nm] obtain b where b: "backup_path ?p = Inr b" by blast
  note bp = backup_path_props [OF b]
  from c1 have live1: "files s1 ?p = Some pre" by auto
  from c1 b bp(2) have first: "\<forall>live0. file_at s0 ?p = Some live0 \<longrightarrow> file_at s1 b = Some live0"
    using bp(4) by (auto simp: file_at_def)
  from restore_True_cases [OF assms(2)] live1 b obtain t2 snap2 where
    s2: "s2 = write_file ?p snap2 (write_file b pre t2)"
    by auto
  from s2 bp(2,4) have after: "file_at s2 b = Some pre" by (simp add: file_at_write)
  from live1 nm have before: "file_at s1 ?p = Some pre" by (simp add: file_at_def)
  from backup_path_eq [OF nm] b have form: "b = butlast ?p @ [?stem @ ''.jsonl.backup'']"
    by simp
  have split: "last ?p = ?stem @ name_suffix (last ?p)"
    by (simp add: stem_suffix)
  show ?thesis
    by (rule exI [of _ b], rule exI [of _ ?stem], rule exI [of _ pre])
       (intro conjI b split form bp(2) pre before after first)
qed

theorem restore_twice_backup_witness:
  \<open>fst (restore_checkpoint sample_lib 2 ''a'' ''/p/s1.jsonl'' restore_store) = Inr True \<and>
   fst (restore_checkpoint sample_lib 2 ''b'' ''/p/s1.jsonl''
          (snd (restore_checkpoint sample_lib 2 ''a'' ''/p/s1.jsonl'' restore_store))) = Inr True \<and>
   file_at (snd (restore_checkpoint sample_lib 2 ''b'' ''/p/s1.jsonl''
                   (snd (restore_checkpoint sample_lib 2 ''a'' ''/p/s1.jsonl'' restore_store))))
     [''/'', ''p'', ''s1.jsonl.backup''] = Some [''{"uuid": "m1"}'']\<close>
proof -
  let ?r1 = "restore_checkpoint sample_lib 2 ''a'' ''/p/s1.jsonl'' restore_store"
  let ?r2 = "restore_checkpoint sample_lib 2 ''b'' ''/p/s1.jsonl'' (snd ?r1)"
  have f1: "fst ?r1 = Inr True"
    by (simp add: restore_checkpoint_def get_checkpoint_def get_checkpoints_def restore_store_def
        sample_checkpoint_def exists_def file_at_def copy2_def sample_backup_path path_eval Let_def)
  have f2: "fst ?r2 = Inr True"
    by (simp add: restore_checkpoint_def get_checkpoint_def get_checkpoints_def restore_store_def
        sample_checkpoint_def exists_def file_at_def copy2_def sample_backup_path path_eval Let_def)
  have h1: "?r1 = (Inr True, snd ?r1)" using f1 by (simp add: prod_eq_iff)
  have h2: "?r2 = (Inr True, snd ?r2)" using f2 by (simp add: prod_eq_iff)
  have snap: \<open>file_at restore_store (snapshot_path restore_store ''a'') = Some [''{"uuid": "m1"}'']\<close>
    by (simp add: file_at_def restore_store_def path_eval)
  have sfx: "name_suffix ''s1.jsonl'' = ''.jsonl''"
    by (simp add: name_suffix_def)
  from restore_twice_backup [OF h1 h2] obtain b stem pre where
    sp: "last (Path ''/p/s1.jsonl'') = stem @ name_suffix (last (Path ''/p/s1.jsonl''))"
    and b: "b = butlast (Path ''/p/s1.jsonl'') @ [stem @ ''.jsonl.backup'']"
    and pre: "file_at restore_store (snapshot_path restore_store ''a'') = Some pre"
    and after: "file_at (snd ?r2) b = Some pre"
    by blast
  from sp have "stem = ''s1''"
    by (simp add: sample_backup_path(2) sfx)
  with b have "b = [''/'', ''p'', ''s1.jsonl.backup'']"
    by (simp add: sample_backup_path(2))
  with after pre snap f1 f2 show ?thesis by simp
qed

section \<open>Properties of Delete\<close>

lemma reparent_id [simp]: "checkpoint_id (reparent cid p c) = checkpoint_id c"
  by (simp add: reparent_def)

lemma reparent_parent:
  "parent_checkpoint_id (reparent cid p c) =
     (if parent_checkpoint_id c = Some cid then p else parent_checkpoint_id c)"
  by (simp add: reparent_def)

lemma find_id: "find (\<lambda>c. checkpoint_id c = cid) cps = Some d \<Longrightarrow> d \<in> set cps \<and> checkpoint_id d = cid"
  by (induction cps) (auto split: if_splits)

text \<open>What a successful Delete leaves, in terms of the index it started from.\<close>

lemma delete_True:
  assumes del: "delete_checkpoint lib depth cid s = (Inr True, s')"
    and gc: "get_checkpoints lib depth None False s = (Inr cps, s0)"
  shows "\<exists>d. find (\<lambda>c. checkpoint_id c = cid) cps = Some d \<and>
             cache s' = Some (filter (\<lambda>c. checkpoint_id c \<noteq> cid)
                                (map (reparent cid (parent_checkpoint_id d)) cps)) \<and>
             file_at s' (checkpoints_file s) =
               Some (dump_index lib (filter (\<lambda>c. checkpoint_id c \<noteq> cid)
                                       (map (reparent cid (parent_checkpoint_id d)) cps)))"
proof -
  from del gc obtain d where d: "find (\<lambda>c. checkpoint_id c = cid) cps = Some d"
    by (auto simp: delete_checkpoint_def split: option.splits)
  from get_checkpoints_frame [OF gc] have fr: "checkpoints_dir s0 = checkpoints_dir s" by simp
  let ?new = "filter (\<lambda>c. checkpoint_id c \<noteq> cid) (map (reparent cid (parent_checkpoint_id d)) cps)"
  from del gc d obtain s2 where rm: "rmtree (join (checkpoints_dir s0) cid) s0 = Inr s2"
    and sv: "save_checkpoints lib depth ?new
               (s2\<lparr>cache := Some (map (reparent cid (parent_checkpoint_id d)) cps)\<rparr>) = (Inr (), s')"
    by (auto simp: delete_checkpoint_def Let_def split: sum.splits prod.splits)
  from rm have d2: "checkpoints_dir s2 = checkpoints_dir s0"
    by (auto simp: rmtree_def split: if_splits)
  with fr have cf: "checkpoints_file (s2\<lparr>cache := Some (map (reparent cid (parent_checkpoint_id d)) cps)\<rparr>)
      = checkpoints_file s"
    by (simp add: checkpoints_file_def)
  from sv have "cache s' = Some ?new \<and> file_at s' (checkpoints_file s) = Some (dump_index lib ?new)"
    unfolding save_eq cf
    by (auto simp: file_at_write name_checkpoints_file split: if_splits)
  with d show ?thesis by blast
qed

text \<open>
  C3, as the code has it. Let every parent reference of the index resolve to a
  checkpoint of the index, and let the checkpoint to delete not be its own parent. After
  Delete has returned \<open>True\<close>, the cache and the index file hold the old entries with
  other ids, in their order, where each one whose parent was the deleted id now has the
  former parent of the deleted checkpoint (possibly none) and the others are unchanged;
  the deleted id is gone; and every parent reference that remains resolves to a
  remaining checkpoint.
\<close>

theorem delete_reparents:
  assumes "delete_checkpoint lib depth cid s = (Inr True, s')"
    and "get_checkpoints lib depth None False s = (Inr cps, s0)"
    and "\<forall>c \<in> set cps. \<forall>p. parent_checkpoint_id c = Some p \<longrightarrow>
           (\<exists>x \<in> set cps. checkpoint_id x = p)"
    and "\<forall>d. find (\<lambda>c. checkpoint_id c = cid) cps = Some d \<longrightarrow>
           parent_checkpoint_id d \<noteq> Some cid"
  shows "\<exists>d cps'.
           find (\<lambda>c. checkpoint_id c = cid) cps = Some d \<and>
           cache s' = Some cps' \<and>
           file_at s' (checkpoints_file s) = Some (dump_index lib cps') \<and>
           cps' = map (\<lambda>c. if parent_checkpoint_id c = Some cid
                            then c\<lparr>parent_checkpoint_id := parent_checkpoint_id d\<rparr> else c)
                    (filter (\<lambda>c. checkpoint_id c \<noteq> cid) cps) \<and>
           (\<forall>c \<in> set cps'. checkpoint_id c \<noteq> cid) \<and>
           (\<forall>c \<in> set cps'. \<forall>p. parent_checkpoint_id c = Some p \<longrightarrow>
                (\<exists>x \<in> set cps'. checkpoint_id x = p))"
proof -
  from delete_True [OF assms(1,2)] obtain d where
    d: "find (\<lambda>c. checkpoint_id c = cid) cps = Some d"
    and ca: "cache s' = Some (filter (\<lambda>c. checkpoint_id c \<noteq> cid)
                                (map (reparent cid (parent_checkpoint_id d)) cps))"
    and fi: "file_at s' (checkpoints_file s) =
               Some (dump_index lib (filter (\<lambda>c. checkpoint_id c \<noteq> cid)
                                       (map (reparent cid (parent_checkpoint_id d)) cps)))"
    by blast
  let ?q = "parent_checkpoint_id d"
  let ?new = "map (reparent cid ?q) (filter (\<lambda>c. checkpoint_id c \<noteq> cid) cps)"
  have sw: "filter (\<lambda>c. checkpoint_id c \<noteq> cid) (map (reparent cid ?q) cps) = ?new"
    by (simp add: filter_map o_def)
  have same: "?new = map (\<lambda>c. if parent_checkpoint_id c = Some cid
                            then c\<lparr>parent_checkpoint_id := ?q\<rparr> else c)
                    (filter (\<lambda>c. checkpoint_id c \<noteq> cid) cps)"
    by (simp add: reparent_def [abs_def])
  from find_id [OF d] have din: "d \<in> set cps" by simp
  from assms(4) d have q: "?q \<noteq> Some cid" by simp
  have ids: "\<forall>c \<in> set ?new. checkpoint_id c \<noteq> cid" by auto
  have keep: "\<And>x. x \<in> set cps \<Longrightarrow> checkpoint_id x \<noteq> cid \<Longrightarrow>
      \<exists>y \<in> set ?new. checkpoint_id y = checkpoint_id x"
    by (rule_tac x = "reparent cid ?q x" in bexI) auto
  have res: "\<forall>c \<in> set ?new. \<forall>p. parent_checkpoint_id c = Some p \<longrightarrow>
      (\<exists>x \<in> set ?new. checkpoint_id x = p)"
  proof (intro ballI allI impI)
    fix c' p
    assume c': "c' \<in> set ?new" and p: "parent_checkpoint_id c' = Some p"
    from c' obtain c where c: "c \<in> set cps" "checkpoint_id c \<noteq> cid" "c' = reparent cid ?q c"
      by auto
    show "\<exists>x \<in> set ?new. checkpoint_id x = p"
    proof (cases "parent_checkpoint_id c = Some cid")
      case True
      with c p have qp: "?q = Some p" by (simp add: reparent_parent)
      with q have "p \<noteq> cid" by auto
      moreover from assms(3) din qp obtain x where "x \<in> set cps" "checkpoint_id x = p" by blast
      ultimately show ?thesis using keep [of x] by auto
    next
      case False
      with c p have pp: "parent_checkpoint_id c = Some p" by (simp add: reparent_parent)
      with False have "p \<noteq> cid" by auto
      moreover from assms(3) c(1) pp obtain x where "x \<in> set cps" "checkpoint_id x = p" by blast
      ultimately show ?thesis using keep [of x] by auto
    qed
  qed
  note ca' = ca [unfolded sw] and fi' = fi [unfolded sw]
  show ?thesis
    by (rule exI [of _ d], rule exI [of _ ?new]) (intro conjI d ca' fi' same ids res)
qed

theorem delete_reparents_witness:
  "fst (delete_checkpoint sample_lib 2 ''a'' restore_store) = Inr True \<and>
   cache (snd (delete_checkpoint sample_lib 2 ''a'' restore_store))
     = Some [sample_checkpoint ''b'' ''s1'' None None]"
proof -
  let ?cps = "[sample_checkpoint ''a'' ''s1'' None None,
               sample_checkpoint ''b'' ''s1'' (Some ''a'') None]"
  let ?r = "delete_checkpoint sample_lib 2 ''a'' restore_store"
  have f: "fst ?r = Inr True"
    by (simp add: delete_checkpoint_def get_checkpoints_def restore_store_def
        sample_checkpoint_def rmtree_def file_at_def below_def save_eq exists_def path_eval Let_def reparent_def)
  then have h1: "?r = (Inr True, snd ?r)" by (simp add: prod_eq_iff)
  have h2: "get_checkpoints sample_lib 2 None False restore_store = (Inr ?cps, restore_store)"
    by (rule get_checkpoints_cached) (simp add: restore_store_def)
  have h3: "\<forall>c \<in> set ?cps. \<forall>p. parent_checkpoint_id c = Some p \<longrightarrow>
      (\<exists>x \<in> set ?cps. checkpoint_id x = p)"
    by (simp add: sample_checkpoint_def)
  have h4: "\<forall>d. find (\<lambda>c. checkpoint_id c = ''a'') ?cps = Some d \<longrightarrow>
      parent_checkpoint_id d \<noteq> Some ''a''"
    by (simp add: sample_checkpoint_def)
  from delete_reparents [OF h1 h2 h3 h4] f show ?thesis
    by (auto simp: sample_checkpoint_def)
qed

text \<open>
  The claim as written asks only that parent references resolve. With a checkpoint
  \<open>a\<close> that names itself as its parent and a child \<open>b\<close> of \<open>a\<close>, every reference
  resolves; Delete of \<open>a\<close> gives \<open>b\<close> the former parent of \<open>a\<close>, which is \<open>a\<close>, and
  \<open>b\<close> is left pointing at an id that no checkpoint has.
\<close>

theorem delete_reparents_counterexample:
  "cache loop_store = Some [sample_checkpoint ''a'' ''s1'' (Some ''a'') None,
                            sample_checkpoint ''b'' ''s1'' (Some ''a'') None] \<and>
   fst (delete_checkpoint sample_lib 2 ''a'' loop_store) = Inr True \<and>
   cache (snd (delete_checkpoint sample_lib 2 ''a'' loop_store))
     = Some [sample_checkpoint ''b'' ''s1'' (Some ''a'') None]"
  by (simp add: delete_checkpoint_def get_checkpoints_def loop_store_def
      sample_checkpoint_def rmtree_def file_at_def below_def save_eq exists_def path_eval
      reparent_def Let_def)

section \<open>Properties of Diff\<close>





section \<open>Properties of the timeline\<close>

lemma collect_Inr: "collect rs = Inr xs \<Longrightarrow> rs = map Inr xs"
  by (induction rs arbitrary: xs) (auto split: sum.splits)

lemma build_tree_root: "build_tree n cps cp = Inr t \<Longrightarrow> tree_root t = cp"
  by (cases n) (auto split: sum.splits)

lemma build_tree_nodes:
  "build_tree n cps cp = Inr t \<Longrightarrow> set (tree_nodes t) \<subseteq> insert cp (set cps)"
proof (induction n arbitrary: cp t)
  case 0
  then show ?case by simp
next
  case (Suc n)
  let ?ch = "filter (\<lambda>c. parent_checkpoint_id c = Some (checkpoint_id cp)) cps"
  from Suc.prems obtain ts where c: "collect (map (build_tree n cps) ?ch) = Inr ts"
    and t: "t = Node cp ts" by (auto split: sum.splits)
  from collect_Inr [OF c] have m: "map (build_tree n cps) ?ch = map Inr ts" .
  have "\<forall>u \<in> set ts. set (tree_nodes u) \<subseteq> set cps"
  proof
    fix u assume "u \<in> set ts"
    then have "Inr u \<in> set (map (build_tree n cps) ?ch)" unfolding m by simp
    then obtain c where c: "c \<in> set ?ch" and b: "build_tree n cps c = Inr u" by auto
    from Suc.IH [OF b] c show "set (tree_nodes u) \<subseteq> set cps" by auto
  qed
  with t show ?case by auto
qed

text \<open>
  The forest of a timeline: its roots are the checkpoints of the session that have no
  parent id, in index order, and every node is a checkpoint of the session.
\<close>

lemma timeline_forest:
  assumes "get_timeline lib depth sid s = (Inr tline, s')"
  shows "\<exists>cps. get_checkpoints lib depth (Some sid) False s = (Inr cps, s') \<and>
               total_checkpoints tline = length cps \<and>
               map tree_root (tree tline) = filter (\<lambda>c. parent_checkpoint_id c = None) cps \<and>
               (\<forall>t \<in> set (tree tline). set (tree_nodes t) \<subseteq> set cps)"
proof -
  from assms obtain cps forest where
    g: "get_checkpoints lib depth (Some sid) False s = (Inr cps, s')"
    and c: "collect (map (build_tree depth cps) (filter (\<lambda>c. parent_checkpoint_id c = None) cps))
            = Inr forest"
    and tl: "total_checkpoints tline = length cps" "tree tline = forest"
    by (auto simp: get_timeline_def split: prod.splits sum.splits)
  let ?roots = "filter (\<lambda>c. parent_checkpoint_id c = None) cps"
  from collect_Inr [OF c] have m: "map (build_tree depth cps) ?roots = map Inr forest" .
  then have len: "length forest = length ?roots" by (metis length_map)
  have each: "\<forall>i < length ?roots. build_tree depth cps (?roots ! i) = Inr (forest ! i)"
  proof (intro allI impI)
    fix i assume i: "i < length ?roots"
    then have "map (build_tree depth cps) ?roots ! i = build_tree depth cps (?roots ! i)" by simp
    moreover from i len have "map Inr forest ! i = (Inr (forest ! i) :: error + tree)" by simp
    ultimately show "build_tree depth cps (?roots ! i) = Inr (forest ! i)" using m by simp
  qed
  have roots: "map tree_root forest = ?roots"
  proof (rule nth_equalityI)
    show "length (map tree_root forest) = length ?roots" using len by simp
  next
    fix i assume "i < length (map tree_root forest)"
    with len have i: "i < length ?roots" by simp
    with each have "build_tree depth cps (?roots ! i) = Inr (forest ! i)" by simp
    from build_tree_root [OF this] i len show "map tree_root forest ! i = ?roots ! i" by simp
  qed
  have nodes: "\<forall>t \<in> set forest. set (tree_nodes t) \<subseteq> set cps"
  proof
    fix t assume "t \<in> set forest"
    then obtain i where i: "i < length forest" and t: "t = forest ! i"
      by (auto simp: in_set_conv_nth)
    with len each have b: "build_tree depth cps (?roots ! i) = Inr t" by simp
    from i len have "?roots ! i \<in> set ?roots" by (metis nth_mem)
    then have "?roots ! i \<in> set cps" by (metis filter_is_subset subsetD)
    with build_tree_nodes [OF b] show "set (tree_nodes t) \<subseteq> set cps" by auto
  qed
  from g tl roots nodes show ?thesis by auto
qed

text \<open>
  C7 is to hold each branch name once. With two checkpoints of session \<open>s1\<close> on the
  branch \<open>fork\<close>, the \<open>branches\<close> field of the timeline lists \<open>fork\<close> twice: the list
  comprehension of \<^verbatim>\<open>get_timeline\<close> keeps one entry per checkpoint, where the panel
  that draws the timeline collects the names in a set.
\<close>

theorem timeline_branches_repeat:
  "get_timeline lib 3 ''s1'' branch_store =
     (Inr \<lparr>tl_session_id = ''s1'', total_checkpoints = 2, branches = [''fork'', ''fork''],
           tree = [Node (sample_checkpoint ''a'' ''s1'' None (Some ''fork''))
                     [Node (sample_checkpoint ''b'' ''s1'' (Some ''a'') (Some ''fork'')) []]]\<rparr>,
      branch_store)"
  by (simp add: get_timeline_def get_checkpoints_def branch_store_def sample_checkpoint_def
      List.map_filter_simps eval_nat_numeral)

text \<open>
  C1 is to show every checkpoint of the session, a forked checkpoint as a root. Session
  \<open>s2\<close> has one checkpoint, forked from a checkpoint of session \<open>s1\<close>: the timeline
  counts it in \<open>total_checkpoints\<close> and its tree is empty, for every stack depth. The
  roots of \<^verbatim>\<open>get_timeline\<close> are the checkpoints without any parent id, where the panel
  that draws the timeline makes a root of every checkpoint whose parent is not among
  the checkpoints of the session.
\<close>

theorem timeline_misses_forked_checkpoint:
  "get_timeline lib depth ''s2'' fork_store =
     (Inr \<lparr>tl_session_id = ''s2'', total_checkpoints = 1, branches = [''fork''], tree = []\<rparr>,
      fork_store) \<and>
   sum_list (map tree_size
     (tree \<lparr>tl_session_id = ''s2'', total_checkpoints = 1, branches = [''fork''], tree = []\<rparr>)) = 0"
  by (simp add: get_timeline_def get_checkpoints_def fork_store_def sample_checkpoint_def
      List.map_filter_simps)

section \<open>Properties of Fork\<close>

lemma split_slash_nonempty [simp]: "split_slash s \<noteq> []"
  by (induction s) (auto split: list.splits)

lemma split_slash_plain: "CHR ''/'' \<notin> set t \<Longrightarrow> split_slash t = [t]"
  by (induction t) auto

lemma split_slash_append:
  "CHR ''/'' \<notin> set t \<Longrightarrow>
   split_slash (s @ t) = butlast (split_slash s) @ [last (split_slash s) @ t]"
proof (induction s)
  case Nil
  then show ?case by (simp add: split_slash_plain)
next
  case (Cons c s)
  show ?case
  proof (cases "c = CHR ''/''")
    case True
    with Cons show ?thesis by simp
  next
    case False
    obtain w ws where w: "split_slash s = w # ws" by (cases "split_slash s") simp_all
    with False Cons show ?thesis
      by (cases ws) (simp_all)
  qed
qed

lemma parse_parts_jsonl:
  "\<exists>front w. parse_parts (x @ ''.jsonl'') = front @ [w @ ''.jsonl'']"
proof -
  have "split_slash (x @ ''.jsonl'') = butlast (split_slash x) @ [last (split_slash x) @ ''.jsonl'']"
    by (rule split_slash_append) simp
  then have "parse_parts (x @ ''.jsonl'') =
      filter (\<lambda>w. w \<noteq> [] \<and> w \<noteq> ''.'') (butlast (split_slash x)) @ [last (split_slash x) @ ''.jsonl'']"
    by (simp add: parse_parts_def)
  then show ?thesis by blast
qed

lemma join_jsonl: "\<exists>front w. join p (x @ ''.jsonl'') = front @ [w @ ''.jsonl'']"
proof -
  from parse_parts_jsonl [of x] obtain front w
    where pp: "parse_parts (x @ ''.jsonl'') = front @ [w @ ''.jsonl'']" by blast
  show ?thesis
  proof (cases "is_absolute (x @ ''.jsonl'')")
    case True
    then have "join p (x @ ''.jsonl'') = (''/'' # front) @ [w @ ''.jsonl'']"
      by (simp add: join_def Path_def pp)
    then show ?thesis by blast
  next
    case False
    then have "join p (x @ ''.jsonl'') = (p @ front) @ [w @ ''.jsonl'']"
      by (simp add: join_def pp)
    then show ?thesis by blast
  qed
qed

lemma name_new_session_path:
  "\<exists>w. path_name (join p (x @ ''.jsonl'')) = w @ ''.jsonl''"
proof -
  from join_jsonl [of p x] obtain front w
    where j: "join p (x @ ''.jsonl'') = front @ [w @ ''.jsonl'']" by blast
  have "w @ ''.jsonl'' \<noteq> ''/''" by (cases w) auto
  with j show ?thesis by (auto simp: path_name_snoc)
qed

lemma new_session_path_not_index: "join p (x @ ''.jsonl'') \<noteq> checkpoints_file s"
proof
  assume e: "join p (x @ ''.jsonl'') = checkpoints_file s"
  from name_new_session_path [of p x] obtain w
    where "path_name (join p (x @ ''.jsonl'')) = w @ ''.jsonl''" by blast
  with e have "w @ ''.jsonl'' = ''index.json''" by (simp add: name_checkpoints_file)
  then have "last (w @ ''.jsonl'') = last ''index.json''" by simp
  then show False by simp
qed

lemma new_session_path_named: "path_name (join p (x @ ''.jsonl'')) \<noteq> []"
  using name_new_session_path [of p x] by auto

text \<open>Create writes the snapshot of the new checkpoint and the index file, nothing else.\<close>

lemma create_frame:
  assumes "create_checkpoint lib depth uuid4 now sid sp muuid nm descr parent branch s = (r, s')"
    and "p \<noteq> snapshot_path s uuid4" and "p \<noteq> checkpoints_file s"
  shows "files s' p = files s p"
proof -
  let ?cp = "\<lparr>checkpoint_id = uuid4, session_id = sid, name = nm, description = descr,
              timestamp = now, message_uuid = muuid, parent_checkpoint_id = parent,
              branch_name = branch\<rparr>"
  let ?step = "(if exists s (Path sp) then
                 (case file_at s (Path sp) of
                    None \<Rightarrow> (Inl IOError, s)
                  | Some ls \<Rightarrow>
                      (case read_until lib muuid ls of
                         Inl e \<Rightarrow> (Inl e, s)
                       | Inr msgs \<Rightarrow>
                           (Inr (), write_file (snapshot_path s (checkpoint_id ?cp))
                                      (map (dumps lib) msgs) s)))
               else (Inr (), s))"
  obtain r1 s1 where st: "?step = (r1, s1)" by (cases ?step)
  then have f1: "files s1 p = files s p" and d1: "checkpoints_dir s1 = checkpoints_dir s"
    using assms(2) by (auto split: if_splits option.splits sum.splits)
  show ?thesis
  proof (cases r1)
    case (Inl e)
    with st assms(1) f1 show ?thesis
      unfolding create_checkpoint_def Let_def by simp
  next
    case (Inr u)
    obtain r2 s2 where g: "get_checkpoints lib depth None False s1 = (r2, s2)"
      by (cases "get_checkpoints lib depth None False s1")
    from get_checkpoints_frame [OF g] have f2: "files s2 = files s1"
      and d2: "checkpoints_dir s2 = checkpoints_dir s1" by simp_all
    show ?thesis
    proof (cases r2)
      case (Inl e)
      with st Inr g assms(1) f1 f2 show ?thesis
        unfolding create_checkpoint_def Let_def by simp
    next
      case (Inr cps)
      obtain r3 s3 where sv: "save_checkpoints lib depth (cps @ [?cp])
          (s2\<lparr>cache := Some (cps @ [?cp])\<rparr>) = (r3, s3)"
        by (cases "save_checkpoints lib depth (cps @ [?cp]) (s2\<lparr>cache := Some (cps @ [?cp])\<rparr>)")
      have "checkpoints_file (s2\<lparr>cache := Some (cps @ [?cp])\<rparr>) = checkpoints_file s"
        using d1 d2 by (simp add: checkpoints_file_def)
      with save_frame(2) [OF sv, of p] assms(3) have "files s3 p = files s2 p" by simp
      with f1 f2 have "files s3 p = files s p" by simp
      with st \<open>r1 = Inr u\<close> g Inr sv assms(1) show ?thesis
        unfolding create_checkpoint_def Let_def by (cases r3) auto
    qed
  qed
qed

lemma fork_lines_all_parse:
  assumes "fork_lines lib new_sid ls = (out, None)"
    and "\<forall>l \<in> set ls. loads lib (strip l) \<noteq> None"
  shows "\<exists>kvs. map (\<lambda>l. loads lib (strip l)) ls = map (\<lambda>kv. Some (JObj kv)) kvs \<and>
               out = map (\<lambda>kv. dumps lib (retag new_sid kv)) kvs"
  using assms
proof (induction ls arbitrary: out)
  case Nil
  then show ?case by simp
next
  case (Cons l ls)
  from Cons.prems(2) obtain d where d: "loads lib (strip l) = Some d" by auto
  from Cons.prems(1) d obtain kv where kv: "d = JObj kv"
    by (cases d) (auto split: prod.splits)
  obtain out' e where r: "fork_lines lib new_sid ls = (out', e)"
    by (cases "fork_lines lib new_sid ls")
  with Cons.prems(1) d kv have e: "e = None" and out: "out = dumps lib (retag new_sid kv) # out'"
    by simp_all
  from Cons.IH [of out'] r e Cons.prems(2) obtain kvs where
    "map (\<lambda>l. loads lib (strip l)) ls = map (\<lambda>kv. Some (JObj kv)) kvs"
    "out' = map (\<lambda>kv. dumps lib (retag new_sid kv)) kvs" by auto
  with d kv out show ?case
    by (intro exI [of _ "kv # kvs"]) simp
qed

lemma retag_session_id:
  "\<exists>kv'. retag new_sid kv = JObj kv' \<and> dict_get kv' ''sessionId'' JNull = JStr new_sid"
  by (simp add: retag_def dict_get_def update_conv')

lemma fork_Some:
  assumes "fork_session lib depth uuid4 now cid new_sid project_path branch s = (Inr (Some path), s')"
  shows "\<exists>cp s1 ls out r.
           get_checkpoint lib depth cid s = (Inr (Some cp), s1) \<and>
           file_at s1 (snapshot_path s1 cid) = Some ls \<and>
           fork_lines lib new_sid
             (if join project_path (new_sid @ ''.jsonl'') = snapshot_path s1 cid then [] else ls)
             = (out, None) \<and>
           create_checkpoint lib depth uuid4 now new_sid
             (str_path (join project_path (new_sid @ ''.jsonl''))) (message_uuid cp)
             (''Fork from '' @ name cp) (''Forked from checkpoint: '' @ name cp)
             (Some cid) (Some branch)
             (write_file (join project_path (new_sid @ ''.jsonl'')) out s1) = (Inr r, s') \<and>
           path = str_path (join project_path (new_sid @ ''.jsonl''))"
  using assms unfolding fork_session_def Let_def
  by (auto split: prod.splits sum.splits option.splits if_splits)

text \<open>
  C4, as the code has it. Let Fork return a path, from a checkpoint whose snapshot
  exists and whose lines all parse, and let the new session log be neither the snapshot
  file it is copied from nor the snapshot file of the checkpoint that Fork creates. Then
  the path returned is that of the new log; every line of the snapshot was an object;
  the new log holds, line for line and in order, the \<^verbatim>\<open>json.dumps\<close> of these objects
  with \<open>sessionId\<close> set to the new session id; and so it has as many records as the
  snapshot.
\<close>

theorem fork_retags_every_record:
  assumes "fork_session lib depth uuid4 now cid new_sid project_path branch s
             = (Inr (Some path), s')"
    and "file_at s (snapshot_path s cid) = Some ls"
    and "\<forall>l \<in> set ls. loads lib (strip l) \<noteq> None"
    and "join project_path (new_sid @ ''.jsonl'') \<noteq> snapshot_path s cid"
    and "join project_path (new_sid @ ''.jsonl'') \<noteq> snapshot_path s uuid4"
  shows "path = str_path (join project_path (new_sid @ ''.jsonl'')) \<and>
         (\<exists>kvs. map (\<lambda>l. loads lib (strip l)) ls = map (\<lambda>kv. Some (JObj kv)) kvs \<and>
                file_at s' (join project_path (new_sid @ ''.jsonl''))
                  = Some (map (\<lambda>kv. dumps lib (retag new_sid kv)) kvs) \<and>
                length kvs = length ls \<and>
                (\<forall>kv \<in> set kvs. \<exists>kv'. retag new_sid kv = JObj kv' \<and>
                     dict_get kv' ''sessionId'' JNull = JStr new_sid))"
proof -
  let ?np = "join project_path (new_sid @ ''.jsonl'')"
  from fork_Some [OF assms(1)] obtain cp s1 ls1 out r where
    gc: "get_checkpoint lib depth cid s = (Inr (Some cp), s1)"
    and sn: "file_at s1 (snapshot_path s1 cid) = Some ls1"
    and fl: "fork_lines lib new_sid (if ?np = snapshot_path s1 cid then [] else ls1) = (out, None)"
    and cr: "create_checkpoint lib depth uuid4 now new_sid (str_path ?np) (message_uuid cp)
             (''Fork from '' @ name cp) (''Forked from checkpoint: '' @ name cp)
             (Some cid) (Some branch) (write_file ?np out s1) = (Inr r, s')"
    and pa: "path = str_path ?np"
    by blast
  from get_checkpoint_frame [OF gc] have fr: "checkpoints_dir s1 = checkpoints_dir s" "files s1 = files s"
    by simp_all
  have sp1: "snapshot_path s1 cid = snapshot_path s cid" by (rule snapshot_path_cong [OF fr(1)])
  have sp2: "snapshot_path (write_file ?np out s1) uuid4 = snapshot_path s uuid4"
    using snapshot_path_cong [OF fr(1), of uuid4] by simp
  from sn assms(2) file_at_cong [OF fr(2)] have ls1: "ls1 = ls" by (simp add: sp1)
  from fl assms(4) have fl': "fork_lines lib new_sid ls = (out, None)" by (simp add: sp1 ls1)
  from fork_lines_all_parse [OF fl' assms(3)] obtain kvs where
    kvs: "map (\<lambda>l. loads lib (strip l)) ls = map (\<lambda>kv. Some (JObj kv)) kvs"
    and out: "out = map (\<lambda>kv. dumps lib (retag new_sid kv)) kvs" by blast
  have ne1: "?np \<noteq> snapshot_path (write_file ?np out s1) uuid4"
    unfolding sp2 by (rule assms(5))
  have ne2: "?np \<noteq> checkpoints_file (write_file ?np out s1)"
    by (rule new_session_path_not_index)
  from create_frame [OF cr ne1 ne2] have "files s' ?np = Some out" by simp
  then have fa: "file_at s' ?np = Some out"
    by (simp add: file_at_def new_session_path_named)
  from kvs have len: "length kvs = length ls"
    by (metis length_map)
  have tag: "\<forall>kv \<in> set kvs. \<exists>kv'. retag new_sid kv = JObj kv' \<and>
      dict_get kv' ''sessionId'' JNull = JStr new_sid"
    by (simp add: retag_session_id)
  from pa kvs fa out len tag show ?thesis by blast
qed

lemmas fork_eval = fork_session_def get_checkpoint_def get_checkpoints_def restore_store_def
  sample_checkpoint_def exists_def file_at_def create_checkpoint_def save_eq str_path_def
  retag_def dict_get_def path_eval sample_eval Let_def

theorem fork_retags_every_record_witness:
  \<open>fst (fork_session sample_lib 2 ''id9'' 0 ''a'' ''s2'' [''/'', ''p''] ''fork'' restore_store)
     = Inr (Some ''/p/s2.jsonl'') \<and>
   file_at (snd (fork_session sample_lib 2 ''id9'' 0 ''a'' ''s2'' [''/'', ''p''] ''fork''
                   restore_store)) [''/'', ''p'', ''s2.jsonl'']
     = Some [''{"uuid": "m1", "sessionId": "s2"}'']\<close>
proof -
  let ?r = "fork_session sample_lib 2 ''id9'' 0 ''a'' ''s2'' [''/'', ''p''] ''fork'' restore_store"
  have f: "fst ?r = Inr (Some ''/p/s2.jsonl'')"
    by (simp add: fork_eval)
  then have h1: "?r = (Inr (Some ''/p/s2.jsonl''), snd ?r)" by (simp add: prod_eq_iff)
  have h2: \<open>file_at restore_store (snapshot_path restore_store ''a'') = Some [''{"uuid": "m1"}'']\<close>
    by (simp add: file_at_def restore_store_def path_eval)
  have h3: \<open>\<forall>l \<in> set [''{"uuid": "m1"}'']. loads sample_lib (strip l) \<noteq> None\<close>
    by (simp add: sample_eval)
  have h4: "join [''/'', ''p''] (''s2'' @ ''.jsonl'') \<noteq> snapshot_path restore_store ''a''"
    by (simp add: restore_store_def path_eval)
  have h5: "join [''/'', ''p''] (''s2'' @ ''.jsonl'') \<noteq> snapshot_path restore_store ''id9''"
    by (simp add: restore_store_def path_eval)
  have np: "join [''/'', ''p''] (''s2'' @ ''.jsonl'') = [''/'', ''p'', ''s2.jsonl'']"
    by (simp add: path_eval)
  from fork_retags_every_record [OF h1 h2 h3 h4 h5]
  obtain kvs where
    k: \<open>map (\<lambda>l. loads sample_lib (strip l)) [''{"uuid": "m1"}''] = map (\<lambda>kv. Some (JObj kv)) kvs\<close>
    and o: "file_at (snd ?r) (join [''/'', ''p''] (''s2'' @ ''.jsonl''))
              = Some (map (\<lambda>kv. dumps sample_lib (retag ''s2'' kv)) kvs)"
    by blast
  from k have "kvs = [[(''uuid'', JStr ''m1'')]]"
    by (cases kvs) (auto simp: sample_eval)
  with o have \<open>file_at (snd ?r) [''/'', ''p'', ''s2.jsonl'']
      = Some [''{"uuid": "m1", "sessionId": "s2"}'']\<close>
    unfolding np by (simp add: retag_def sample_lib_def sample_dumps_def)
  with f show ?thesis by simp
qed

text \<open>
  The claim as written covers every successful Fork. Forking checkpoint \<open>a\<close> into its
  own data directory under the session id \<open>session\<close> makes the new log the snapshot
  file itself: opening it for writing empties it before a line is read, Fork returns
  its path, and the log has no record where the snapshot had one.
\<close>

theorem fork_retags_every_record_counterexample:
  \<open>file_at restore_store (snapshot_path restore_store ''a'') = Some [''{"uuid": "m1"}''] \<and>
   loads sample_lib (strip ''{"uuid": "m1"}'') = Some (JObj [(''uuid'', JStr ''m1'')]) \<and>
   fst (fork_session sample_lib 2 ''id9'' 0 ''a'' ''session'' [''/'', ''store'', ''a''] ''fork''
          restore_store) = Inr (Some ''/store/a/session.jsonl'') \<and>
   file_at (snd (fork_session sample_lib 2 ''id9'' 0 ''a'' ''session'' [''/'', ''store'', ''a'']
                   ''fork'' restore_store)) [''/'', ''store'', ''a'', ''session.jsonl'']
     = Some []\<close>
  by (simp add: fork_eval)

end
